theory Spec2Isabelle
  imports Complex_Main "HOL-Library.Multiset" "HOL-Library.AList" "HOL-Library.Word"
begin

section \<open>Tasks (queue.js: TaskStatus, Task)\<close>

text \<open>
  A shallow embedding of the judge server's scheduler (\<^verbatim>\<open>queue.js\<close>), artifact cache
  (\<^verbatim>\<open>cache.js\<close>) and pipeline handlers (\<^verbatim>\<open>handlers.js\<close>).

  JavaScript numbers that hold priorities, timestamps and counters are modelled as
  \<open>int\<close>. Every call of \<^verbatim>\<open>Date.now()\<close> and \<^verbatim>\<open>uuidv4()\<close> is a parameter of the
  operation that makes it. A \<^verbatim>\<open>Map\<close> is an association list in insertion order
  (\<open>map_of\<close> looks a key up, \<open>AList.update\<close> is \<^verbatim>\<open>Map.set\<close>, \<open>AList.delete\<close> is
  \<^verbatim>\<open>Map.delete\<close>).
\<close>

datatype task_status = Pending | Running | Completed | Failed

text \<open>
  The field \<^verbatim>\<open>id\<close> is called \<open>tid\<close> (\<open>id\<close> is HOL's identity function). The task's
  \<^verbatim>\<open>data\<close> and the handler's result are type parameters: the scheduler never looks
  inside them. \<^verbatim>\<open>null\<close> is \<open>None\<close>.
\<close>

record ('d, 'r) task =
  tid :: string
  type :: string
  data :: 'd
  priority :: int
  status :: task_status
  result :: "'r option"
  error :: "string option"
  createdAt :: int
  startedAt :: "int option"
  completedAt :: "int option"

text \<open>The constructor; \<open>newid\<close> is \<^verbatim>\<open>uuidv4()\<close> and \<open>now\<close> is \<^verbatim>\<open>Date.now()\<close>.\<close>

definition Task :: "string \<Rightarrow> string \<Rightarrow> 'd \<Rightarrow> int \<Rightarrow> int \<Rightarrow> ('d, 'r) task" where
  "Task newid ty d prio now =
     \<lparr>tid = newid, type = ty, data = d, priority = prio, status = Pending,
      result = None, error = None, createdAt = now, startedAt = None,
      completedAt = None\<rparr>"

section \<open>The priority queue (queue.js: PriorityQueue)\<close>

definition compare :: "('d, 'r) task \<Rightarrow> ('d, 'r) task \<Rightarrow> int" where
  "compare a b =
     (if priority a \<noteq> priority b then priority b - priority a
      else createdAt a - createdAt b)"

text \<open>
  \<^verbatim>\<open>_siftUp\<close> and \<^verbatim>\<open>_siftDown\<close> are the source's loops, written as recursion on the
  index. The class calls them with an index inside the array only (\<open>push\<close> with the last
  index, \<open>pop\<close> with \<open>0\<close> on a non-empty array).
\<close>

function siftUp :: "('d, 'r) task list \<Rightarrow> nat \<Rightarrow> ('d, 'r) task list" where
  "siftUp heap index =
     (if index > 0 then
        (let parentIndex = (index - 1) div 2 in
         if compare (heap ! index) (heap ! parentIndex) < 0
         then siftUp (heap[index := heap ! parentIndex, parentIndex := heap ! index])
                parentIndex
         else heap)
      else heap)"
  by pat_completeness auto
termination
  by (relation "measure (\<lambda>(heap, index). index)") auto

function siftDown :: "('d, 'r) task list \<Rightarrow> nat \<Rightarrow> ('d, 'r) task list" where
  "siftDown heap index =
     (let len = length heap;
          left = 2 * index + 1;
          right = 2 * index + 2;
          smallest = (if left < len \<and> compare (heap ! left) (heap ! index) < 0
                      then left else index);
          smallest = (if right < len \<and> compare (heap ! right) (heap ! smallest) < 0
                      then right else smallest)
      in if smallest \<noteq> index
         then siftDown (heap[index := heap ! smallest, smallest := heap ! index]) smallest
         else heap)"
  by pat_completeness auto
termination
  by (relation "measure (\<lambda>(heap, index). length heap - index)")
     (auto simp: Let_def split: if_splits)

declare siftUp.simps [simp del] siftDown.simps [simp del]

definition push :: "('d, 'r) task list \<Rightarrow> ('d, 'r) task \<Rightarrow> ('d, 'r) task list" where
  "push heap task = siftUp (heap @ [task]) (length (heap @ [task]) - 1)"

text \<open>\<open>pop\<close> returns the removed task (\<open>None\<close> is \<^verbatim>\<open>null\<close>) and the array left.\<close>

definition pop :: "('d, 'r) task list \<Rightarrow> ('d, 'r) task option \<times> ('d, 'r) task list" where
  "pop heap =
     (if length heap = 0 then (None, heap)
      else
        (let top = heap ! 0;
             lst = last heap;
             heap' = butlast heap
         in if length heap' > 0 then (Some top, siftDown (heap'[0 := lst]) 0)
            else (Some top, heap')))"

definition peek :: "('d, 'r) task list \<Rightarrow> ('d, 'r) task option" where
  "peek heap = (if length heap > 0 then Some (heap ! 0) else None)"

definition isEmpty :: "('d, 'r) task list \<Rightarrow> bool" where
  "isEmpty heap = (length heap = 0)"

section \<open>The scheduler (queue.js: TaskQueue)\<close>

text \<open>
  \<open>tasks\<close> is the registry \<^verbatim>\<open>Map id -> Task\<close>; it is also where the model keeps the
  task objects: a mutation of a task object is a write under its id. \<open>runningTasks\<close>
  keeps the keys of the \<^verbatim>\<open>Map\<close> of that name (its values are the same task objects).
  \<open>handlers\<close> keeps the task types that have a handler registered; what a handler
  does when it runs reaches the scheduler as the outcome of the awaited call (see
  \<open>settle\<close>).
\<close>

record ('d, 'r) task_queue =
  queue :: "('d, 'r) task list"
  tasks :: "(string \<times> ('d, 'r) task) list"
  runningTasks :: "string list"
  activeWorkers :: int
  concurrency :: int
  handlers :: "string list"

text \<open>
  The argument of \<open>normalizeConcurrency\<close> is the value of
  \<^verbatim>\<open>Number.parseInt(value, 10)\<close>; \<open>None\<close> is \<^verbatim>\<open>NaN\<close>.
\<close>

definition normalizeConcurrency :: "int option \<Rightarrow> int" where
  "normalizeConcurrency parsed =
     (case parsed of None \<Rightarrow> 1 | Some n \<Rightarrow> if n < 1 then 1 else n)"

definition TaskQueue :: "int option \<Rightarrow> ('d, 'r) task_queue" where
  "TaskQueue c =
     \<lparr>queue = [], tasks = [], runningTasks = [], activeWorkers = 0,
      concurrency = normalizeConcurrency c, handlers = []\<rparr>"

definition registerHandler :: "string \<Rightarrow> ('d, 'r) task_queue \<Rightarrow> ('d, 'r) task_queue" where
  "registerHandler ty s =
     s\<lparr>handlers := (if ty \<in> set (handlers s) then handlers s else handlers s @ [ty])\<rparr>"

text \<open>
  \<^verbatim>\<open>executeTask\<close> in two parts. \<open>settle\<close> is what runs after
  \<^verbatim>\<open>await handler(task.data)\<close>. \<open>Inr r\<close>: the handler's promise resolved to \<open>r\<close>, which
  is stored as it is; \<open>r\<close> is \<open>None\<close> when the promise resolved to \<^verbatim>\<open>null\<close> or
  \<^verbatim>\<open>undefined\<close> (a handler that returns nothing) and \<open>Some v\<close> for any other value.
  \<open>Inl m\<close>: the handler threw, and \<open>m\<close> is the message of what it threw
  (\<^verbatim>\<open>error.message\<close> of an \<^verbatim>\<open>Error\<close>, a string, or \<^verbatim>\<open>String(error)\<close>).
  \<open>executeTask_start\<close> is the synchronous part before the await, run inside \<open>process\<close>:
  with no handler registered the task fails at once; otherwise the handler is called and
  the task stays running until its outcome arrives.
\<close>

definition settle :: "('d, 'r) task \<Rightarrow> string + 'r option \<Rightarrow> int \<Rightarrow> ('d, 'r) task" where
  "settle task outcome now =
     (case outcome of
        Inr r \<Rightarrow> task\<lparr>status := Completed, result := r, completedAt := Some now\<rparr>
      | Inl errorMessage \<Rightarrow>
          task\<lparr>status := Failed, error := Some errorMessage, completedAt := Some now\<rparr>)"

definition executeTask_start ::
  "('d, 'r) task \<Rightarrow> int \<Rightarrow> ('d, 'r) task_queue \<Rightarrow> ('d, 'r) task_queue" where
  "executeTask_start task now s =
     (if type task \<in> set (handlers s) then s
      else s\<lparr>tasks := AList.update (tid task)
                (settle task (Inl (''No handler registered for task type: '' @ type task)) now)
                (tasks s)\<rparr>)"

text \<open>The sift loops keep the length of the array, so each \<open>pop\<close> shortens it.\<close>

lemma length_siftDown [simp]: "length (siftDown heap index) = length heap"
proof (induction heap index rule: siftDown.induct)
  case (1 heap index)
  show ?case
    apply (subst siftDown.simps)
    using 1 by (auto simp: Let_def)
qed

lemma length_siftUp [simp]: "length (siftUp heap index) = length heap"
proof (induction heap index rule: siftUp.induct)
  case (1 heap index)
  show ?case
    apply (subst siftUp.simps)
    using 1 by (auto simp: Let_def)
qed

lemma length_pop: "pop heap = (Some t, heap') \<Longrightarrow> length heap' < length heap"
  by (auto simp: pop_def Let_def split: if_splits)

text \<open>
  \<open>process\<close> is the dispatch loop. The promise callbacks it installs
  (\<^verbatim>\<open>.catch(...).finally(...)\<close>) run later, as \<open>worker_finally\<close>.
\<close>

function process :: "('d, 'r) task_queue \<Rightarrow> int \<Rightarrow> ('d, 'r) task_queue" where
  "process s now =
     (if activeWorkers s < concurrency s \<and> \<not> isEmpty (queue s) then
        (case pop (queue s) of
           (None, q) \<Rightarrow> s\<lparr>queue := q\<rparr>
         | (Some task, q) \<Rightarrow>
             (let task' = task\<lparr>status := Running, startedAt := Some now\<rparr> in
              process
                (executeTask_start task' now
                   (s\<lparr>queue := q,
                      activeWorkers := activeWorkers s + 1,
                      runningTasks :=
                        (if tid task \<in> set (runningTasks s) then runningTasks s
                         else runningTasks s @ [tid task]),
                      tasks := AList.update (tid task) task' (tasks s)\<rparr>))
                now))
      else s)"
  by pat_completeness auto
termination
  apply (relation "measure (\<lambda>(s, now). length (queue s))")
   apply (auto simp: executeTask_start_def dest: length_pop[OF sym])
  done

declare process.simps [simp del]

definition setConcurrency ::
  "int option \<Rightarrow> int \<Rightarrow> ('d, 'r) task_queue \<Rightarrow> int \<times> ('d, 'r) task_queue" where
  "setConcurrency parsed now s =
     (let nextConcurrency = normalizeConcurrency parsed in
      if nextConcurrency = concurrency s then (concurrency s, s)
      else (let s' = process (s\<lparr>concurrency := nextConcurrency\<rparr>) now
            in (concurrency s', s')))"

definition addTask ::
  "string \<Rightarrow> 'd \<Rightarrow> int \<Rightarrow> string \<Rightarrow> int \<Rightarrow> ('d, 'r) task_queue
     \<Rightarrow> string \<times> ('d, 'r) task_queue" where
  "addTask ty d prio newid now s =
     (let task = Task newid ty d prio now;
          s1 = s\<lparr>tasks := AList.update (tid task) task (tasks s),
                 queue := push (queue s) task\<rparr>
      in (tid task, process s1 now))"

definition getTask :: "string \<Rightarrow> ('d, 'r) task_queue \<Rightarrow> ('d, 'r) task option" where
  "getTask taskId s = map_of (tasks s) taskId"

text \<open>
  \<open>worker_settle\<close>: the handler's promise settles and \<^verbatim>\<open>executeTask\<close> resumes on its
  task. \<open>worker_finally\<close>: the \<^verbatim>\<open>.finally\<close> callback of \<open>process\<close> frees the worker.
\<close>

definition worker_settle ::
  "string \<Rightarrow> string + 'r option \<Rightarrow> int \<Rightarrow> ('d, 'r) task_queue \<Rightarrow> ('d, 'r) task_queue" where
  "worker_settle taskId outcome now s =
     (case map_of (tasks s) taskId of
        None \<Rightarrow> s
      | Some task \<Rightarrow> s\<lparr>tasks := AList.update taskId (settle task outcome now) (tasks s)\<rparr>)"

definition worker_finally ::
  "string \<Rightarrow> int \<Rightarrow> ('d, 'r) task_queue \<Rightarrow> ('d, 'r) task_queue" where
  "worker_finally taskId now s =
     process
       (s\<lparr>activeWorkers := max 0 (activeWorkers s - 1),
          runningTasks := removeAll taskId (runningTasks s)\<rparr>)
       now"

text \<open>
  \<open>cleanup\<close> keeps the 1000 most recently completed terminal tasks
  (\<^verbatim>\<open>Array.prototype.sort\<close> is stable, as \<open>sort_key\<close> is).
\<close>

definition cleanup :: "('d, 'r) task_queue \<Rightarrow> ('d, 'r) task_queue" where
  "cleanup s =
     (let completed =
            map (\<lambda>(k, t). (k, case completedAt t of None \<Rightarrow> 0 | Some c \<Rightarrow> c))
              (filter (\<lambda>(k, t). status t = Completed \<or> status t = Failed) (tasks s))
      in if length completed > 1000
         then (let toRemove = drop 1000 (sort_key (\<lambda>(k, c). - c) completed)
               in s\<lparr>tasks := fold (\<lambda>(k, c). AList.delete k) toRemove (tasks s)\<rparr>)
         else s)"

subsection \<open>The scheduler as a state machine\<close>

text \<open>
  JavaScript runs one callback at a time, so a run of the scheduler is a sequence of
  events, each applied to the whole state. An event that cannot happen in the state
  leaves it unchanged:
  \<^item> \<open>AddTask\<close> carries the \<^verbatim>\<open>uuidv4()\<close> of the new task, which is fresh (\<open>fresh_id\<close>);
  \<^item> \<open>Settle\<close> carries what the handler's promise settled with (see \<open>settle\<close>) and
    needs a task whose handler is being awaited (\<open>awaiting\<close>);
  \<^item> \<open>Finally\<close> needs a started task whose \<^verbatim>\<open>executeTask\<close> promise has resolved and
    whose callback has not run yet (\<open>settled\<close>).
\<close>

datatype ('d, 'r) event =
    AddTask string 'd int string int
  | SetConcurrency "int option" int
  | Settle string "string + 'r option" int
  | Finally string int
  | Cleanup
  | RegisterHandler string

definition fresh_id :: "string \<Rightarrow> ('d, 'r) task_queue \<Rightarrow> bool" where
  "fresh_id newid s =
     (map_of (tasks s) newid = None \<and> newid \<notin> set (runningTasks s)
      \<and> newid \<notin> set (map tid (queue s)))"

definition awaiting :: "string \<Rightarrow> ('d, 'r) task_queue \<Rightarrow> bool" where
  "awaiting taskId s =
     (taskId \<in> set (runningTasks s) \<and>
      (case map_of (tasks s) taskId of None \<Rightarrow> False | Some t \<Rightarrow> status t = Running))"

definition settled :: "string \<Rightarrow> ('d, 'r) task_queue \<Rightarrow> bool" where
  "settled taskId s =
     (taskId \<in> set (runningTasks s) \<and>
      (case map_of (tasks s) taskId of None \<Rightarrow> True | Some t \<Rightarrow> status t \<noteq> Running))"

fun step :: "('d, 'r) event \<Rightarrow> ('d, 'r) task_queue \<Rightarrow> ('d, 'r) task_queue" where
  "step (AddTask ty d prio newid now) s =
     (if fresh_id newid s then snd (addTask ty d prio newid now s) else s)"
| "step (SetConcurrency parsed now) s = snd (setConcurrency parsed now s)"
| "step (Settle taskId outcome now) s =
     (if awaiting taskId s then worker_settle taskId outcome now s else s)"
| "step (Finally taskId now) s =
     (if settled taskId s then worker_finally taskId now s else s)"
| "step Cleanup s = cleanup s"
| "step (RegisterHandler ty) s = registerHandler ty s"

fun run :: "('d, 'r) event list \<Rightarrow> ('d, 'r) task_queue \<Rightarrow> ('d, 'r) task_queue" where
  "run [] s = s"
| "run (e # es) s = run es (step e s)"




subsection \<open>Predicates of the scheduler's invariant\<close>




section \<open>The artifact cache (cache.js: CacheManager)\<close>

text \<open>
  The cache manager is its index (\<^verbatim>\<open>this.cache\<close>, a \<^verbatim>\<open>Map id -> CacheItem\<close>) and the
  files it writes. \<open>world\<close> holds both, the disk as a map from paths to contents, and
  the clock that \<^verbatim>\<open>Date.now()\<close> reads in the handlers. The operations of the cache
  take the value of \<^verbatim>\<open>Date.now()\<close> as \<open>now\<close> and the value of \<^verbatim>\<open>uuidv4()\<close> as
  \<open>newid\<close>. File operations of the cache are taken to succeed (\<^verbatim>\<open>writeFileSync\<close>
  writes, \<^verbatim>\<open>unlinkSync\<close> removes).
\<close>

type_synonym bytes = "8 word list"

definition CACHE_TTL :: int where
  "CACHE_TTL = 5 * 60 * 1000"

definition CACHE_DIR :: string where
  "CACHE_DIR = ''/tmp/judge-cache''"

datatype CacheType = SOURCE | BINARY | INPUT | OUTPUT | CHECKER

fun type_name :: "CacheType \<Rightarrow> string" where
  "type_name SOURCE = ''source''"
| "type_name BINARY = ''binary''"
| "type_name INPUT = ''input''"
| "type_name OUTPUT = ''output''"
| "type_name CHECKER = ''checker''"

text \<open>
  \<^verbatim>\<open>set\<close> takes a \<^verbatim>\<open>Buffer\<close> or a string; a string is written in UTF-8. A HOL
  character is a code point below 256, which UTF-8 writes in one or two bytes.
\<close>

datatype payload = Buffer bytes | Text string

definition utf8_char :: "char \<Rightarrow> bytes" where
  "utf8_char c =
     (let n = (of_char c :: nat) in
      if n < 128 then [of_nat n] else [of_nat (192 + n div 64), of_nat (128 + n mod 64)])"

definition utf8 :: "string \<Rightarrow> bytes" where
  "utf8 s = concat (map utf8_char s)"

text \<open>
  The metadata object, with the keys the repository stores. \<open>byteSize\<close> is the key
  \<^verbatim>\<open>size\<close>, \<open>md_language\<close> is \<^verbatim>\<open>language\<close>, \<open>isCustomCheckerFlag\<close> is
  \<^verbatim>\<open>isCustomChecker\<close>; an absent key is \<open>None\<close>. In \<open>cache_item\<close>, \<open>item_id\<close>,
  \<open>item_type\<close>, \<open>item_metadata\<close> and \<open>item_createdAt\<close> are the fields \<^verbatim>\<open>id\<close>,
  \<^verbatim>\<open>type\<close>, \<^verbatim>\<open>metadata\<close> and \<^verbatim>\<open>createdAt\<close>.
\<close>

record metadata =
  fileName :: "string option"
  byteSize :: "nat option"
  originalSource :: "string option"
  md_language :: "string option"
  isCustomCheckerFlag :: "bool option"

record cache_item =
  item_id :: string
  item_type :: CacheType
  filePath :: string
  item_metadata :: metadata
  item_createdAt :: int
  expiresAt :: int

record world =
  cache :: "(string \<times> cache_item) list"
  files :: "string \<rightharpoonup> bytes"
  clock :: int

text \<open>
  \<^verbatim>\<open>path.join\<close> on the segments the repository joins: directory names, type names,
  UUIDs and fixed file names, none of which holds a slash or is a dot segment.
\<close>

definition path_join :: "string \<Rightarrow> string \<Rightarrow> string" where
  "path_join dir name = dir @ ''/'' @ name"

definition CacheItem :: "string \<Rightarrow> CacheType \<Rightarrow> string \<Rightarrow> metadata \<Rightarrow> int \<Rightarrow> cache_item" where
  "CacheItem cid ty path md now =
     \<lparr>item_id = cid, item_type = ty, filePath = path, item_metadata = md,
      item_createdAt = now, expiresAt = now + CACHE_TTL\<rparr>"

definition isExpired :: "int \<Rightarrow> cache_item \<Rightarrow> bool" where
  "isExpired now item = (now > expiresAt item)"

text \<open>
  The methods \<^verbatim>\<open>delete\<close>, \<^verbatim>\<open>set\<close>, \<^verbatim>\<open>get\<close>, \<^verbatim>\<open>has\<close>, \<^verbatim>\<open>refresh\<close>,
  \<^verbatim>\<open>cleanup\<close> and \<^verbatim>\<open>clear\<close>, named \<open>cache_delete\<close> and so on (\<open>set\<close> is HOL's
  set of a list). Each returns its result and the world it leaves.
\<close>

definition cache_delete :: "string \<Rightarrow> world \<Rightarrow> world" where
  "cache_delete cid w =
     (case map_of (cache w) cid of
        None \<Rightarrow> w
      | Some item \<Rightarrow>
          w\<lparr>files := (files w)(filePath item := None),
            cache := AList.delete cid (cache w)\<rparr>)"

definition cache_set ::
  "int \<Rightarrow> string \<Rightarrow> CacheType \<Rightarrow> payload \<Rightarrow> metadata \<Rightarrow> world \<Rightarrow> string \<times> world" where
  "cache_set now newid ty dat md w =
     (let fname = (case fileName md of
                     None \<Rightarrow> newid
                   | Some f \<Rightarrow> if f = [] then newid else f);
          path = path_join (path_join CACHE_DIR (type_name ty)) newid;
          content = (case dat of Buffer b \<Rightarrow> b | Text s \<Rightarrow> utf8 s);
          item = CacheItem newid ty path
                   (md\<lparr>fileName := Some fname, byteSize := Some (length content)\<rparr>) now
      in (newid,
          w\<lparr>files := (files w)(path \<mapsto> content),
            cache := AList.update newid item (cache w)\<rparr>))"

definition cache_get :: "int \<Rightarrow> string \<Rightarrow> world \<Rightarrow> cache_item option \<times> world" where
  "cache_get now cid w =
     (case map_of (cache w) cid of
        None \<Rightarrow> (None, w)
      | Some item \<Rightarrow>
          if isExpired now item then (None, cache_delete cid w)
          else if files w (filePath item) = None then (None, cache_delete cid w)
          else (Some item, w))"

definition cache_has :: "int \<Rightarrow> string \<Rightarrow> world \<Rightarrow> bool \<times> world" where
  "cache_has now cid w =
     (case map_of (cache w) cid of
        None \<Rightarrow> (False, w)
      | Some item \<Rightarrow>
          if isExpired now item then (False, cache_delete cid w)
          else (True, w))"

definition cache_refresh :: "int \<Rightarrow> string \<Rightarrow> world \<Rightarrow> bool \<times> world" where
  "cache_refresh now cid w =
     (case map_of (cache w) cid of
        None \<Rightarrow> (False, w)
      | Some item \<Rightarrow>
          if \<not> isExpired now item
          then (True, w\<lparr>cache := AList.update cid (item\<lparr>expiresAt := now + CACHE_TTL\<rparr>) (cache w)\<rparr>)
          else (False, w))"

definition cache_cleanup :: "int \<Rightarrow> world \<Rightarrow> world" where
  "cache_cleanup now w =
     (let expiredIds = map fst (filter (\<lambda>(k, item). isExpired now item) (cache w))
      in fold cache_delete expiredIds w)"

definition cache_clear :: "world \<Rightarrow> world" where
  "cache_clear w = fold cache_delete (map fst (cache w)) w"

subsection \<open>Sequences of cache operations\<close>

text \<open>
  A history of the cache is a list of calls, each with the time it is made at.
  \<open>sets_id h c\<close>: the call \<open>c\<close> is a \<^verbatim>\<open>set\<close> whose \<^verbatim>\<open>uuidv4()\<close> is \<open>h\<close>.
\<close>

datatype cache_op =
    OpSet string CacheType payload metadata
  | OpGet string
  | OpHas string
  | OpDelete string
  | OpRefresh string
  | OpCleanup
  | OpClear

fun apply_op :: "int \<Rightarrow> cache_op \<Rightarrow> world \<Rightarrow> world" where
  "apply_op now (OpSet newid ty dat md) w = snd (cache_set now newid ty dat md w)"
| "apply_op now (OpGet cid) w = snd (cache_get now cid w)"
| "apply_op now (OpHas cid) w = snd (cache_has now cid w)"
| "apply_op now (OpDelete cid) w = cache_delete cid w"
| "apply_op now (OpRefresh cid) w = snd (cache_refresh now cid w)"
| "apply_op now OpCleanup w = cache_cleanup now w"
| "apply_op now OpClear w = cache_clear w"

fun exec :: "(int \<times> cache_op) list \<Rightarrow> world \<Rightarrow> world" where
  "exec [] w = w"
| "exec ((now, c) # ops) w = exec ops (apply_op now c w)"

fun sets_id :: "string \<Rightarrow> cache_op \<Rightarrow> bool" where
  "sets_id h (OpSet newid ty dat md) = (newid = h)"
| "sets_id h c = False"

text \<open>
  \<open>live_until\<close> follows the spec's words, for comparison with the code: a handle put
  with expiry \<open>e\<close> stays live until a call is made after \<open>expiresAt\<close> has passed or
  \<^verbatim>\<open>delete\<close> is called on it (\<^verbatim>\<open>clear\<close> deletes every handle), whichever is first; a
  \<^verbatim>\<open>refresh\<close> of the live handle moves \<open>expiresAt\<close>. \<open>Some e\<close>: live after the calls,
  with \<open>expiresAt = e\<close>; \<open>None\<close>: no longer live.
\<close>

fun live_until :: "string \<Rightarrow> int \<Rightarrow> (int \<times> cache_op) list \<Rightarrow> int option" where
  "live_until h e [] = Some e"
| "live_until h e ((now, c) # ops) =
     (if e < now then None
      else if c = OpDelete h \<or> c = OpClear then None
      else if c = OpRefresh h then live_until h (now + CACHE_TTL) ops
      else live_until h e ops)"

text \<open>
  Predicates of the proofs. \<open>cache_wf\<close>: the index has each key once and every entry's
  file is the one \<^verbatim>\<open>set\<close> wrote for its key. \<open>empty_world\<close>: the index and the disk
  at start.
\<close>

definition cache_wf :: "world \<Rightarrow> bool" where
  "cache_wf w =
     (distinct (map fst (cache w))
      \<and> (\<forall>k item. map_of (cache w) k = Some item \<longrightarrow>
            filePath item = path_join (path_join CACHE_DIR (type_name (item_type item))) k))"

definition empty_world :: world where
  "empty_world = \<lparr>cache = [], files = Map.empty, clock = 0\<rparr>"

text \<open>
  \<open>live_in\<close>: the handle is in the index with \<open>expiresAt = e\<close> and its file holds
  \<open>bs\<close>. \<open>gone_in\<close>: the handle is out of the index, or in it with an \<open>expiresAt\<close>
  before \<open>t0\<close>.
\<close>

definition live_in :: "string \<Rightarrow> CacheType \<Rightarrow> bytes \<Rightarrow> int \<Rightarrow> world \<Rightarrow> bool" where
  "live_in h ty bs e w =
     (cache_wf w
      \<and> (\<exists>item. map_of (cache w) h = Some item \<and> expiresAt item = e \<and> item_type item = ty)
      \<and> files w (path_join (path_join CACHE_DIR (type_name ty)) h) = Some bs)"

definition gone_in :: "string \<Rightarrow> int \<Rightarrow> world \<Rightarrow> bool" where
  "gone_in h t0 w =
     (cache_wf w
      \<and> (case map_of (cache w) h of None \<Rightarrow> True | Some item \<Rightarrow> expiresAt item < t0))"


text \<open>A metadata object with no keys, for the examples.\<close>

definition no_metadata :: metadata where
  "no_metadata = \<lparr>fileName = None, byteSize = None, originalSource = None,
                   md_language = None, isCustomCheckerFlag = None\<rparr>"

section \<open>The sandbox (the external library chiko-judge-sandbox)\<close>

text \<open>
  The handlers call the library \<^verbatim>\<open>chiko-judge-sandbox\<close> (\<^verbatim>\<open>ChikoJudgeSandbox\<close>), which is
  not part of the repository. It is a parameter of the model: a record \<open>sandbox\<close> with one
  function for each method the handlers call. A method takes the argument of the call and
  the world and gives what the call resolves to (\<open>Inr\<close>) or the message of what it throws
  (\<open>Inl\<close>), and the world it leaves. Nothing is assumed of these functions.

  The records below are the objects passed to the methods and returned by them, with the
  fields the handlers write and read. Where two objects have a field of the same name the
  field carries a prefix: \<open>arg_\<close> (argument of \<^verbatim>\<open>runProgram\<close>), \<open>res_\<close> (the object
  \<^verbatim>\<open>runResult.result\<close>), \<open>run_\<close> (the object \<^verbatim>\<open>runResult\<close>), \<open>chk_\<close> (argument of
  \<^verbatim>\<open>runChecker\<close>), \<open>opt_\<close> (argument of \<^verbatim>\<open>runInteractive\<close>) and \<open>verdict_\<close> (the
  object \<^verbatim>\<open>result.verdict\<close>). Numbers that the handlers only compare with integer
  constants or copy are \<open>int\<close>; scores are \<open>real\<close> (a JavaScript number other than NaN).
\<close>

record compile_args =
  sourceCode :: bytes
  language :: string
  submissionId :: string
  isChecker :: bool

record compile_result =
  success :: bool
  compileInfo :: string
  executablePath :: string
  tempDir :: string

record run_args =
  arg_executablePath :: string
  arg_inputPath :: string
  arg_language :: string
  arg_timeLimit :: int
  arg_memoryLimit :: int
  arg_isFileInput :: bool
  arg_inputFileName :: string
  arg_outputFileName :: string

record exit_info =
  res_status :: int
  res_code :: int
  res_time :: int
  res_memory :: int

record program_run =
  run_result :: exit_info
  run_output :: string
  run_error :: string

record checker_args =
  checkerPath :: string
  chk_inputPath :: string
  chk_outputPath :: string
  answerPath :: string
  useTestlib :: bool

record checker_result =
  score :: real
  normalizedScore :: real
  message :: string

record interactive_options =
  userExecutablePath :: string
  interactorExecutablePath :: string
  userLanguage :: string
  interactorLanguage :: string
  opt_timeLimit :: int
  opt_memoryLimit :: int
  opt_interactorTimeLimit :: int
  opt_interactorMemoryLimit :: int
  opt_scoreFileName :: string
  opt_messageFileName :: string
  interactorInputPath :: "string option"
  interactorInputFileName :: "string option"

record interactive_verdict =
  verdict :: string
  verdict_score :: real
  verdict_normalizedScore :: real
  verdict_message :: string
  verdict_reason :: string

record interactive_result =
  verdict_record :: interactive_verdict
  userResult :: program_run
  interactorResult :: program_run

record sandbox =
  compile :: "compile_args \<Rightarrow> world \<Rightarrow> (string + compile_result) \<times> world"
  compileChecker :: "string \<Rightarrow> world \<Rightarrow> (string + string) \<times> world"
  runProgram :: "run_args \<Rightarrow> world \<Rightarrow> (string + program_run) \<times> world"
  runChecker :: "checker_args \<Rightarrow> world \<Rightarrow> (string + checker_result) \<times> world"
  runInteractive :: "interactive_options \<Rightarrow> world \<Rightarrow> (string + interactive_result) \<times> world"
  cleanupTempDir :: "string \<Rightarrow> world \<Rightarrow> (string + unit) \<times> world"

text \<open>
  A call made to the library, with the argument passed and the response received. The
  handlers return the list of their calls, in the order made.
\<close>

datatype sandbox_call =
    Compile compile_args "string + compile_result"
  | CompileChecker string "string + string"
  | RunProgram run_args "string + program_run"
  | RunChecker checker_args "string + checker_result"
  | RunInteractive interactive_options "string + interactive_result"
  | CleanupTempDir string "string + unit"

text \<open>
  A handler, and each part of one, is a function of the world. It gives its outcome
  (\<open>Inr\<close> the value returned, \<open>Inl\<close> the message of the exception thrown), the calls made
  to the library and the world left. \<open>and_then\<close> runs two parts in sequence: an exception
  of the first ends the sequence. \<open>try_finally m fin\<close> is \<^verbatim>\<open>try { m } finally { fin }\<close>
  for a \<open>fin\<close> that does not throw. \<open>call_sandbox\<close> is \<^verbatim>\<open>await\<close> of a call to the library.
\<close>

type_synonym 'a io = "world \<Rightarrow> (string + 'a) \<times> sandbox_call list \<times> world"

definition return :: "'a \<Rightarrow> 'a io" where
  "return x w = (Inr x, [], w)"

definition throw :: "string \<Rightarrow> 'a io" where
  "throw msg w = (Inl msg, [], w)"

definition and_then :: "'a io \<Rightarrow> ('a \<Rightarrow> 'b io) \<Rightarrow> 'b io" where
  "and_then m f w =
     (case m w of
        (Inl msg, calls, w') \<Rightarrow> (Inl msg, calls, w')
      | (Inr x, calls, w') \<Rightarrow>
          (case f x w' of (r, calls', w'') \<Rightarrow> (r, calls @ calls', w'')))"

definition try_finally :: "'a io \<Rightarrow> (world \<Rightarrow> world) \<Rightarrow> 'a io" where
  "try_finally m fin w = (case m w of (r, calls, w') \<Rightarrow> (r, calls, fin w'))"

definition call_sandbox ::
  "('r \<Rightarrow> sandbox_call) \<Rightarrow> (world \<Rightarrow> 'r \<times> world) \<Rightarrow> (world \<Rightarrow> 'r \<times> sandbox_call list \<times> world)" where
  "call_sandbox ev f w = (case f w of (r, w') \<Rightarrow> (r, [ev r], w'))"

text \<open>
  \<^verbatim>\<open>Date.now()\<close> reads the clock of the world. \<open>cacheManager_get\<close> and
  \<open>cacheManager_set\<close> are the methods of the cache manager called at that clock;
  \<open>newid\<close> is the value of \<^verbatim>\<open>uuidv4()\<close> inside \<^verbatim>\<open>set\<close>.

  The file operations work on the disk of the world, a map from the paths of files to
  their contents. \<^verbatim>\<open>readFileSync\<close> and \<^verbatim>\<open>copyFileSync\<close> throw on a missing source
  file. Directories are not kept, so \<^verbatim>\<open>mkdirSync\<close> with \<^verbatim>\<open>recursive: true\<close> changes
  nothing, and neither does \<^verbatim>\<open>chmodSync\<close>, the disk having no permissions; both are
  left out of the handlers below. \<open>rmSync dir\<close> is
  \<^verbatim>\<open>fs.rmSync(dir, { recursive: true, force: true })\<close>: it removes the files under
  \<open>dir\<close> and does not throw.
\<close>

definition Date_now :: "int io" where
  "Date_now w = (Inr (clock w), [], w)"

definition cacheManager_get :: "string \<Rightarrow> cache_item option io" where
  "cacheManager_get cid w = (case cache_get (clock w) cid w of (r, w') \<Rightarrow> (Inr r, [], w'))"

definition cacheManager_set :: "string \<Rightarrow> CacheType \<Rightarrow> payload \<Rightarrow> metadata \<Rightarrow> string io" where
  "cacheManager_set newid ty dat md w =
     (case cache_set (clock w) newid ty dat md w of (r, w') \<Rightarrow> (Inr r, [], w'))"

definition readFileSync :: "string \<Rightarrow> bytes io" where
  "readFileSync path w =
     (case files w path of
        None \<Rightarrow> (Inl (''ENOENT: no such file or directory, open '' @ path), [], w)
      | Some content \<Rightarrow> (Inr content, [], w))"

definition writeFileSync :: "string \<Rightarrow> bytes \<Rightarrow> unit io" where
  "writeFileSync path content w = (Inr (), [], w\<lparr>files := (files w)(path \<mapsto> content)\<rparr>)"

definition copyFileSync :: "string \<Rightarrow> string \<Rightarrow> unit io" where
  "copyFileSync src dest = and_then (readFileSync src) (\<lambda>content. writeFileSync dest content)"

definition rmSync :: "string \<Rightarrow> world \<Rightarrow> world" where
  "rmSync dir w =
     w\<lparr>files := (\<lambda>p. if p = dir \<or> take (length dir + 1) p = dir @ ''/'' then None
                      else files w p)\<rparr>"

text \<open>
  \<open>decimal\<close> is the text of an integer in a template literal. \<open>createUniqueTempDir\<close>
  takes the value of \<^verbatim>\<open>randomUUID()\<close> as \<open>uuid\<close>.
\<close>

function digits :: "int \<Rightarrow> string" where
  "digits n =
     (if n < 10 then [''0123456789'' ! nat n]
      else digits (n div 10) @ [''0123456789'' ! nat (n mod 10)])"
  by pat_completeness auto
termination
  by (relation "measure nat") simp_all

declare digits.simps [simp del]

definition decimal :: "int \<Rightarrow> string" where
  "decimal i = (if i < 0 then ''-'' @ digits (- i) else digits i)"

definition createUniqueTempDir :: "string \<Rightarrow> string \<Rightarrow> string io" where
  "createUniqueTempDir prefix uuid =
     and_then Date_now (\<lambda>now.
       return (path_join ''/tmp'' (prefix @ ''-'' @ decimal now @ ''-'' @ uuid)))"

section \<open>The pipeline handlers (handlers.js)\<close>

text \<open>
  The regular expression \<^verbatim>\<open>UUID_REGEX\<close> as a matcher. \<open>hex_class\<close> is the class
  \<^verbatim>\<open>[0-9a-f]\<close> under the flag \<^verbatim>\<open>i\<close>; \<open>hex_run n s\<close> is \<^verbatim>\<open>[0-9a-f]{n}\<close> at the start of
  \<open>s\<close>, giving the rest of \<open>s\<close>; \<open>dash\<close> is the character \<^verbatim>\<open>-\<close>. The expression is
  anchored at both ends, so the last run must leave nothing.
\<close>

definition TESTLIB_CHECKERS :: "string list" where
  "TESTLIB_CHECKERS =
     [''icmp'', ''ncmp'', ''wcmp'', ''rcmp'', ''dcmp'', ''fcmp'', ''hcmp'', ''lcmp'',
      ''uncmp'', ''caseicmp'', ''casencmp'', ''casewcmp'', ''yesno'', ''nyesno'',
      ''rcmp4'', ''rcmp6'', ''rcmp9'', ''rncmp'', ''acmp'']"

definition hex_class :: "char \<Rightarrow> bool" where
  "hex_class c = (c \<in> set ''0123456789abcdef'' \<or> c \<in> set ''ABCDEF'')"

fun hex_run :: "nat \<Rightarrow> string \<Rightarrow> string option" where
  "hex_run 0 s = Some s"
| "hex_run (Suc n) [] = None"
| "hex_run (Suc n) (c # s) = (if hex_class c then hex_run n s else None)"

fun dash :: "string option \<Rightarrow> string option" where
  "dash (Some (c # s)) = (if c = CHR ''-'' then Some s else None)"
| "dash other = None"

definition UUID_REGEX_test :: "string \<Rightarrow> bool" where
  "UUID_REGEX_test s =
     (case dash (hex_run 8 s) of None \<Rightarrow> False | Some s1 \<Rightarrow>
      case dash (hex_run 4 s1) of None \<Rightarrow> False | Some s2 \<Rightarrow>
      case dash (hex_run 4 s2) of None \<Rightarrow> False | Some s3 \<Rightarrow>
      case dash (hex_run 4 s3) of None \<Rightarrow> False | Some s4 \<Rightarrow>
      hex_run 12 s4 = Some [])"

definition isCustomChecker :: "string \<Rightarrow> bool" where
  "isCustomChecker checkerName = UUID_REGEX_test checkerName"

text \<open>
  The data of a compile task and the object its handler returns. A key that is absent
  is \<open>None\<close>: \<^verbatim>\<open>language\<close> in the data (the default is \<^verbatim>\<open>'cpp'\<close>), \<^verbatim>\<open>binaryCacheId\<close>
  and \<^verbatim>\<open>checkerCacheId\<close> in the object returned. The source file is read as bytes. The
  call of \<^verbatim>\<open>cleanupTempDir\<close> is not awaited in the source; here it is a call like the
  others, whose exception would be the handler's.
\<close>

record compile_data =
  sourceCacheId :: string
  data_language :: "string option"

record compile_reply =
  reply_success :: bool
  binaryCacheId :: "string option"
  checkerCacheId :: "string option"
  reply_compileInfo :: string

definition handleCompileChecker :: "sandbox \<Rightarrow> string \<Rightarrow> compile_data \<Rightarrow> compile_reply io" where
  "handleCompileChecker sb newid d =
     (let lang = (case data_language d of None \<Rightarrow> ''cpp'' | Some l \<Rightarrow> l) in
      and_then (cacheManager_get (sourceCacheId d)) (\<lambda>sourceCache.
      case sourceCache of
        None \<Rightarrow> throw ''Checker source code cache not found or expired''
      | Some sc \<Rightarrow>
      and_then (readFileSync (filePath sc)) (\<lambda>src.
      and_then Date_now (\<lambda>now.
      let args = \<lparr>sourceCode = src, language = lang,
                  submissionId = ''checker_'' @ decimal now, isChecker = True\<rparr> in
      and_then (call_sandbox (Compile args) (compile sb args)) (\<lambda>compileResult.
      if \<not> success compileResult then
        return \<lparr>reply_success = False, binaryCacheId = None, checkerCacheId = None,
                reply_compileInfo = compileInfo compileResult\<rparr>
      else
      and_then (readFileSync (executablePath compileResult)) (\<lambda>executableBuffer.
      and_then (cacheManager_set newid CHECKER (Buffer executableBuffer)
                  \<lparr>fileName = None, byteSize = None,
                   originalSource = Some (sourceCacheId d), md_language = Some lang,
                   isCustomCheckerFlag = Some True\<rparr>) (\<lambda>newCacheId.
      and_then (call_sandbox (CleanupTempDir (tempDir compileResult))
                  (cleanupTempDir sb (tempDir compileResult))) (\<lambda>u.
      return \<lparr>reply_success = True, binaryCacheId = None, checkerCacheId = Some newCacheId,
              reply_compileInfo = compileInfo compileResult\<rparr>))))))))"

definition getCheckerPath :: "sandbox \<Rightarrow> string \<Rightarrow> string io" where
  "getCheckerPath sb checkerName =
     (if isCustomChecker checkerName then
        and_then (cacheManager_get checkerName) (\<lambda>checkerCache.
        case checkerCache of
          None \<Rightarrow> throw (''Custom checker cache not found or expired: '' @ checkerName)
        | Some cc \<Rightarrow> return (filePath cc))
      else call_sandbox (CompileChecker checkerName) (compileChecker sb checkerName))"

definition isTestlibChecker :: "string \<Rightarrow> bool" where
  "isTestlibChecker checkerName =
     (if isCustomChecker checkerName then True
      else checkerName \<in> set TESTLIB_CHECKERS)"

definition handleCompile :: "sandbox \<Rightarrow> string \<Rightarrow> compile_data \<Rightarrow> compile_reply io" where
  "handleCompile sb newid d =
     (let lang = (case data_language d of None \<Rightarrow> ''cpp'' | Some l \<Rightarrow> l) in
      and_then (cacheManager_get (sourceCacheId d)) (\<lambda>sourceCache.
      case sourceCache of
        None \<Rightarrow> throw ''Source code cache not found or expired''
      | Some sc \<Rightarrow>
      and_then (readFileSync (filePath sc)) (\<lambda>src.
      and_then Date_now (\<lambda>now.
      let args = \<lparr>sourceCode = src, language = lang,
                  submissionId = ''compile_'' @ decimal now, isChecker = False\<rparr> in
      and_then (call_sandbox (Compile args) (compile sb args)) (\<lambda>compileResult.
      if \<not> success compileResult then
        return \<lparr>reply_success = False, binaryCacheId = None, checkerCacheId = None,
                reply_compileInfo = compileInfo compileResult\<rparr>
      else
      and_then (readFileSync (executablePath compileResult)) (\<lambda>executableBuffer.
      and_then (cacheManager_set newid BINARY (Buffer executableBuffer)
                  \<lparr>fileName = None, byteSize = None,
                   originalSource = Some (sourceCacheId d), md_language = Some lang,
                   isCustomCheckerFlag = None\<rparr>) (\<lambda>newCacheId.
      and_then (call_sandbox (CleanupTempDir (tempDir compileResult))
                  (cleanupTempDir sb (tempDir compileResult))) (\<lambda>u.
      return \<lparr>reply_success = True, binaryCacheId = Some newCacheId, checkerCacheId = None,
              reply_compileInfo = compileInfo compileResult\<rparr>))))))))"

text \<open>
  The data of a run task and of a judge task (a judge task has two more keys), and the
  object \<^verbatim>\<open>handleJudge\<close> returns: \<open>judge_score\<close>, \<open>judge_normalizedScore\<close> and
  \<open>checkerMessage\<close> are absent when the program did not exit cleanly, \<open>judge_error\<close> is
  absent when it did. \<^verbatim>\<open>handleJudge\<close> is written in phases: \<open>judge_stopped\<close> is the object
  returned without a checker, \<open>judge_verdict\<close> the object returned after the checker,
  \<open>judge_check\<close> the part of the \<^verbatim>\<open>try\<close> block after the classification of the run,
  \<open>judge_try\<close> the \<^verbatim>\<open>try\<close> block.
\<close>

record run_data =
  data_binaryCacheId :: string
  data_inputCacheId :: string
  timeLimit :: "int option"
  memoryLimit :: "int option"
  isFileInput :: "bool option"
  inputFileName :: "string option"
  outputFileName :: "string option"

record judge_data = run_data +
  data_outputCacheId :: string
  checkerName :: "string option"

record judge_reply =
  judge_status :: string
  judge_score :: "real option"
  judge_normalizedScore :: "real option"
  judge_time :: int
  judge_memory :: int
  judge_output :: string
  judge_error :: "string option"
  checkerMessage :: "string option"

definition run_args_of :: "'a run_data_scheme \<Rightarrow> string \<Rightarrow> string \<Rightarrow> run_args" where
  "run_args_of d execPath inputPath =
     \<lparr>arg_executablePath = execPath, arg_inputPath = inputPath, arg_language = ''cpp'',
      arg_timeLimit = (case timeLimit d of None \<Rightarrow> 1000 | Some x \<Rightarrow> x),
      arg_memoryLimit = (case memoryLimit d of None \<Rightarrow> 128 * 1024 | Some x \<Rightarrow> x),
      arg_isFileInput = (case isFileInput d of None \<Rightarrow> False | Some x \<Rightarrow> x),
      arg_inputFileName = (case inputFileName d of None \<Rightarrow> ''input.txt'' | Some x \<Rightarrow> x),
      arg_outputFileName = (case outputFileName d of None \<Rightarrow> ''output.txt'' | Some x \<Rightarrow> x)\<rparr>"

definition judge_stopped :: "program_run \<Rightarrow> judge_reply" where
  "judge_stopped runResult =
     \<lparr>judge_status =
        (if res_status (run_result runResult) = 2 then ''time-limit-exceeded''
         else if res_status (run_result runResult) = 3 then ''memory-limit-exceeded''
         else ''runtime-error''),
      judge_score = None, judge_normalizedScore = None,
      judge_time = res_time (run_result runResult),
      judge_memory = res_memory (run_result runResult),
      judge_output = run_output runResult,
      judge_error = Some (run_error runResult),
      checkerMessage = None\<rparr>"

definition judge_verdict :: "program_run \<Rightarrow> checker_result \<Rightarrow> judge_reply" where
  "judge_verdict runResult checkerResult =
     \<lparr>judge_status =
        (if normalizedScore checkerResult \<ge> 1 then ''accepted''
         else if normalizedScore checkerResult > 0 then ''partial-accepted''
         else ''wrong-answer''),
      judge_score = Some (score checkerResult),
      judge_normalizedScore = Some (normalizedScore checkerResult),
      judge_time = res_time (run_result runResult),
      judge_memory = res_memory (run_result runResult),
      judge_output = run_output runResult,
      judge_error = None,
      checkerMessage = Some (message checkerResult)\<rparr>"

definition judge_check ::
  "sandbox \<Rightarrow> string \<Rightarrow> string \<Rightarrow> string \<Rightarrow> string \<Rightarrow> program_run \<Rightarrow> judge_reply io" where
  "judge_check sb checker inputPath outputPath answerPath' runResult =
     and_then (writeFileSync outputPath (utf8 (run_output runResult))) (\<lambda>u.
     and_then (getCheckerPath sb checker) (\<lambda>chkPath.
     let cargs = \<lparr>checkerPath = chkPath, chk_inputPath = inputPath,
                  chk_outputPath = outputPath, answerPath = answerPath',
                  useTestlib = isTestlibChecker checker\<rparr> in
     and_then (call_sandbox (RunChecker cargs) (runChecker sb cargs)) (\<lambda>checkerResult.
     return (judge_verdict runResult checkerResult))))"

definition judge_try ::
  "sandbox \<Rightarrow> judge_data \<Rightarrow> cache_item \<Rightarrow> cache_item \<Rightarrow> cache_item \<Rightarrow> string
     \<Rightarrow> judge_reply io" where
  "judge_try sb d binaryCache inputCache outputCache tmp =
     (let checker = (case checkerName d of None \<Rightarrow> ''icmp'' | Some c \<Rightarrow> c);
          execPath = path_join tmp ''program'';
          inputPath = path_join tmp ''input.txt'';
          answerPath' = path_join tmp ''answer.txt'';
          outputPath = path_join tmp ''output.txt'';
          args = run_args_of d execPath inputPath in
      and_then (readFileSync (filePath binaryCache)) (\<lambda>program.
      and_then (writeFileSync execPath program) (\<lambda>u1.
      and_then (copyFileSync (filePath inputCache) inputPath) (\<lambda>u2.
      and_then (copyFileSync (filePath outputCache) answerPath') (\<lambda>u3.
      and_then (call_sandbox (RunProgram args) (runProgram sb args)) (\<lambda>runResult.
      if res_status (run_result runResult) \<noteq> 1 \<or> res_code (run_result runResult) \<noteq> 0
      then return (judge_stopped runResult)
      else judge_check sb checker inputPath outputPath answerPath' runResult))))))"

definition handleJudge :: "sandbox \<Rightarrow> string \<Rightarrow> judge_data \<Rightarrow> judge_reply io" where
  "handleJudge sb uuid d =
     and_then (cacheManager_get (data_binaryCacheId d)) (\<lambda>binaryCache.
     and_then (cacheManager_get (data_inputCacheId d)) (\<lambda>inputCache.
     and_then (cacheManager_get (data_outputCacheId d)) (\<lambda>outputCache.
     case binaryCache of None \<Rightarrow> throw ''Binary cache not found or expired'' | Some bc \<Rightarrow>
     case inputCache of None \<Rightarrow> throw ''Input cache not found or expired'' | Some ic \<Rightarrow>
     case outputCache of None \<Rightarrow> throw ''Output cache not found or expired'' | Some oc \<Rightarrow>
     and_then (createUniqueTempDir ''judge'' uuid) (\<lambda>tmp.
     try_finally (judge_try sb d bc ic oc tmp) (rmSync tmp)))))"














section \<open>Predicates of the handler proofs\<close>

text \<open>
  \<open>wp m Q w\<close>: what \<open>m\<close> gives from the world \<open>w\<close> satisfies \<open>Q\<close>. \<open>always m P\<close>: the
  outcome and the calls of \<open>m\<close> satisfy \<open>P\<close> from every world. \<open>has_files S w\<close>: each
  path of \<open>S\<close> is a file of the disk.
\<close>

definition wp :: "'a io \<Rightarrow> ((string + 'a) \<Rightarrow> sandbox_call list \<Rightarrow> world \<Rightarrow> bool) \<Rightarrow> world \<Rightarrow> bool" where
  "wp m Q w = (case m w of (outcome, calls, w') \<Rightarrow> Q outcome calls w')"

definition always :: "'a io \<Rightarrow> ((string + 'a) \<Rightarrow> sandbox_call list \<Rightarrow> bool) \<Rightarrow> bool" where
  "always m P = (\<forall>w. wp m (\<lambda>outcome calls w'. P outcome calls) w)"

definition has_files :: "string set \<Rightarrow> world \<Rightarrow> bool" where
  "has_files S w = (\<forall>p \<in> S. files w p \<noteq> None)"


text \<open>
  \<open>run_classified\<close>: the outcome and the calls of a judge handler that either made no
  call and threw, or called \<^verbatim>\<open>runProgram\<close> first and then went by its response.
\<close>

definition run_classified ::
  "string + judge_reply \<Rightarrow> sandbox_call list \<Rightarrow> bool" where
  "run_classified outcome calls =
     ((calls = [] \<and> (\<exists>msg. outcome = Inl msg))
      \<or> (\<exists>args r rest. calls = RunProgram args r # rest
            \<and> (case r of
                  Inl msg \<Rightarrow> outcome = Inl msg \<and> rest = []
                | Inr prun \<Rightarrow>
                    if res_status (run_result prun) = 1 \<and> res_code (run_result prun) = 0
                    then \<forall>reply. outcome = Inr reply \<longrightarrow>
                           checkerMessage reply \<noteq> None
                           \<and> (\<exists>cargs cr. RunChecker cargs (Inr cr) \<in> set rest)
                    else outcome = Inr (judge_stopped prun) \<and> rest = [])))"

text \<open>
  \<open>cleanup_on_success\<close>, on the outcome and the calls of a compile handler: a reply
  with \<^verbatim>\<open>success: true\<close> comes with exactly two calls, \<^verbatim>\<open>compile\<close>, which succeeded, and
  \<^verbatim>\<open>cleanupTempDir\<close> on the \<^verbatim>\<open>tempDir\<close> it returned; a call of \<^verbatim>\<open>cleanupTempDir\<close> is
  made only so; and after a \<^verbatim>\<open>compile\<close> that returned \<^verbatim>\<open>success: false\<close> the handler
  returns the failure reply, \<^verbatim>\<open>compile\<close> being the only call. \<open>no_cleanup_call\<close>: no
  call of the list is a call of \<^verbatim>\<open>cleanupTempDir\<close>.
\<close>

definition cleanup_on_success :: "string + compile_reply \<Rightarrow> sandbox_call list \<Rightarrow> bool" where
  "cleanup_on_success outcome calls =
     ((\<forall>reply. outcome = Inr reply \<and> reply_success reply \<longrightarrow>
         (\<exists>args cr r. success cr
            \<and> calls = [Compile args (Inr cr), CleanupTempDir (tempDir cr) r]))
      \<and> (\<forall>dir r. CleanupTempDir dir r \<in> set calls \<longrightarrow>
            (\<exists>args cr. success cr \<and> dir = tempDir cr
               \<and> calls = [Compile args (Inr cr), CleanupTempDir dir r]))
      \<and> (\<forall>args cr. Compile args (Inr cr) \<in> set calls \<and> \<not> success cr \<longrightarrow>
            outcome = Inr \<lparr>reply_success = False, binaryCacheId = None,
                           checkerCacheId = None, reply_compileInfo = compileInfo cr\<rparr>
            \<and> calls = [Compile args (Inr cr)]))"

definition no_cleanup_call :: "sandbox_call list \<Rightarrow> bool" where
  "no_cleanup_call calls =
     list_all (\<lambda>c. case c of CleanupTempDir dir r \<Rightarrow> False | _ \<Rightarrow> True) calls"








section \<open>Examples: a library with fixed responses, a stocked cache, task data\<close>

text \<open>
  \<open>stub_sandbox cr pr ck ir\<close> answers every call with a fixed response: \<^verbatim>\<open>compile\<close>
  with \<open>cr\<close> (writing the executable when \<open>cr\<close> is a success), \<^verbatim>\<open>runProgram\<close> with
  \<open>pr\<close>, \<^verbatim>\<open>runChecker\<close> with \<open>ck\<close>, \<^verbatim>\<open>runInteractive\<close> with \<open>ir\<close>. \<open>stored_world\<close> is
  the world at time 2000 after five \<^verbatim>\<open>set\<close> calls at time 1000, giving the handles
  \<open>s1\<close> (a source), \<open>b1\<close> and \<open>x1\<close> (binaries), \<open>i1\<close> (an input) and \<open>o1\<close> (an
  output). \<open>running_task\<close> is a task as \<open>process\<close> hands it to \<^verbatim>\<open>executeTask\<close>.
\<close>

definition stub_sandbox ::
  "compile_result \<Rightarrow> program_run \<Rightarrow> checker_result \<Rightarrow> interactive_result \<Rightarrow> sandbox" where
  "stub_sandbox cr pr ck ir =
     \<lparr>compile = (\<lambda>args w.
         (Inr cr, if success cr then w\<lparr>files := (files w)(executablePath cr \<mapsto> [127, 69, 76, 70])\<rparr>
                  else w)),
      compileChecker = (\<lambda>name w. (Inr (''/opt/checkers/'' @ name), w)),
      runProgram = (\<lambda>args w. (Inr pr, w)),
      runChecker = (\<lambda>args w. (Inr ck, w)),
      runInteractive = (\<lambda>options w. (Inr ir, w)),
      cleanupTempDir = (\<lambda>dir w. (Inr (), rmSync dir w))\<rparr>"

definition stub_compile :: "bool \<Rightarrow> compile_result" where
  "stub_compile ok =
     \<lparr>success = ok, compileInfo = (if ok then '''' else ''error: expected ;''),
      executablePath = ''/tmp/sandbox-7/main'', tempDir = ''/tmp/sandbox-7''\<rparr>"

definition stub_run :: "int \<Rightarrow> int \<Rightarrow> program_run" where
  "stub_run st cd =
     \<lparr>run_result = \<lparr>res_status = st, res_code = cd, res_time = 12, res_memory = 3400\<rparr>,
      run_output = ''3'', run_error = ''''\<rparr>"

definition stub_check :: "real \<Rightarrow> checker_result" where
  "stub_check ns = \<lparr>score = 100 * ns, normalizedScore = ns, message = ''checked''\<rparr>"

definition stub_interaction :: interactive_result where
  "stub_interaction =
     \<lparr>verdict_record = \<lparr>verdict = ''accepted'', verdict_score = 100,
                         verdict_normalizedScore = 1, verdict_message = ''ok'',
                         verdict_reason = ''''\<rparr>,
      userResult = stub_run 1 0, interactorResult = stub_run 1 0\<rparr>"

definition stored_world :: world where
  "stored_world =
     (snd (cache_set 1000 ''o1'' OUTPUT (Buffer [51]) no_metadata
        (snd (cache_set 1000 ''i1'' INPUT (Buffer [49, 32, 50]) no_metadata
           (snd (cache_set 1000 ''x1'' BINARY (Buffer [127, 69, 76, 70]) no_metadata
              (snd (cache_set 1000 ''b1'' BINARY (Buffer [127, 69, 76, 70]) no_metadata
                 (snd (cache_set 1000 ''s1'' SOURCE (Text ''int main(){}'') no_metadata
                    empty_world))))))))))\<lparr>clock := 2000\<rparr>"

definition judge_b1_i1_o1 :: "string option \<Rightarrow> judge_data" where
  "judge_b1_i1_o1 checker =
     \<lparr>data_binaryCacheId = ''b1'', data_inputCacheId = ''i1'', timeLimit = None,
      memoryLimit = None, isFileInput = None, inputFileName = None, outputFileName = None,
      data_outputCacheId = ''o1'', checkerName = checker\<rparr>"

definition compile_s1 :: compile_data where
  "compile_s1 = \<lparr>sourceCacheId = ''s1'', data_language = None\<rparr>"



definition example_sandbox :: "bool \<Rightarrow> sandbox" where
  "example_sandbox ok =
     stub_sandbox (stub_compile ok) (stub_run 1 0) (stub_check 1) stub_interaction"

section \<open>Properties of the priority queue\<close>

text \<open>
  C5 (code evaluated at the failing input). Three tasks of equal priority created in the
  same millisecond are pushed in the order a, b, c. \<open>compare\<close> is \<open>0\<close> on each pair, so
  the heap has no tie-break: \<open>pop\<close> moves the last element c to the root and \<open>_siftDown\<close>
  leaves it there. The tasks come out a, c, b, not in submission order.
\<close>

theorem pop_same_millisecond_not_fifo:
  "(let a = Task ''a'' ''run'' () 0 1708000000000 :: (unit, unit) task;
        b = Task ''b'' ''run'' () 0 1708000000000;
        c = Task ''c'' ''run'' () 0 1708000000000;
        h = push (push (push [] a) b) c;
        (r1, h1) = pop h;
        (r2, h2) = pop h1;
        (r3, h3) = pop h2
    in r1 = Some a \<and> r2 = Some c \<and> r3 = Some b \<and> h3 = [])"
  by code_simp

text \<open>The sift loops, \<open>push\<close> and \<open>pop\<close> keep the tasks of the array.\<close>

lemma mset_siftDown [simp]: "mset (siftDown heap index) = mset heap"
proof (induction heap index rule: siftDown.induct)
  case (1 heap index)
  show ?case
    apply (subst siftDown.simps)
    using 1 by (auto simp: Let_def mset_swap)
qed

lemma mset_siftUp [simp]: "index < length heap \<Longrightarrow> mset (siftUp heap index) = mset heap"
proof (induction heap index rule: siftUp.induct)
  case (1 heap index)
  show ?case
    apply (subst siftUp.simps)
    using 1 by (auto simp: Let_def mset_swap)
qed

lemma mset_push [simp]: "mset (push heap task) = add_mset task (mset heap)"
  by (simp add: push_def)


section \<open>Properties of the scheduler\<close>

lemma process_concurrency [simp]: "concurrency (process s now) = concurrency s"
proof (induction s now rule: process.induct)
  case (1 s now)
  show ?case
    apply (subst process.simps)
    using 1 by (auto simp: Let_def executeTask_start_def split: prod.splits option.splits)
qed














subsection \<open>Result and error of a task\<close>















text \<open>
  The hypothesis on the handlers is needed: \<^verbatim>\<open>executeTask\<close> stores what the promise
  resolved to without looking at it, so a handler that returns nothing would leave a
  completed task whose result is \<^verbatim>\<open>undefined\<close>. No handler of the repository does.
\<close>

lemma completed_without_result_after_null:
  "(let s = run [RegisterHandler ''run'', AddTask ''run'' () 0 ''t1'' 1,
                 Settle ''t1'' (Inr None) 3]
              (TaskQueue None :: (unit, unit) task_queue)
    in map_option status (getTask ''t1'' s) = Some Completed
       \<and> map_option result (getTask ''t1'' s) = Some None)"
  by code_simp

section \<open>Properties of the artifact cache\<close>

lemma cache_path_inj:
  "path_join (path_join CACHE_DIR (type_name ty)) k = path_join (path_join CACHE_DIR (type_name ty')) k'
   \<Longrightarrow> k = k' \<and> ty = ty'"
  by (cases ty; cases ty') (auto simp: path_join_def)


lemma map_of_cache_delete:
  "map_of (cache (cache_delete k w)) k' = (if k' = k then None else map_of (cache w) k')"
  by (auto simp: cache_delete_def delete_conv' split: option.splits)

lemma files_cache_delete:
  assumes "cache_wf w" "k \<noteq> h"
  shows "files (cache_delete k w) (path_join (path_join CACHE_DIR (type_name ty)) h)
         = files w (path_join (path_join CACHE_DIR (type_name ty)) h)"
proof (cases "map_of (cache w) k")
  case None
  then show ?thesis by (simp add: cache_delete_def)
next
  case (Some item)
  then have "filePath item = path_join (path_join CACHE_DIR (type_name (item_type item))) k"
    using assms(1) by (auto simp: cache_wf_def)
  then have "filePath item \<noteq> path_join (path_join CACHE_DIR (type_name ty)) h"
    using assms(2) cache_path_inj by metis
  with Some show ?thesis by (simp add: cache_delete_def)
qed

lemma distinct_cache_delete:
  "distinct (map fst (cache w)) \<Longrightarrow> distinct (map fst (cache (cache_delete k w)))"
  by (auto simp: cache_delete_def distinct_delete split: option.splits)

lemma wf_cache_delete: "cache_wf w \<Longrightarrow> cache_wf (cache_delete k w)"
  unfolding cache_wf_def
  by (auto simp: map_of_cache_delete distinct_cache_delete simp del: map_of_eq_Some_iff
        split: if_splits)

lemma wf_fold_delete: "cache_wf w \<Longrightarrow> cache_wf (fold cache_delete ks w)"
  by (induction ks arbitrary: w) (auto intro: wf_cache_delete)

lemma map_of_fold_cache_delete:
  "map_of (cache (fold cache_delete ks w)) k' = (if k' \<in> set ks then None else map_of (cache w) k')"
  by (induction ks arbitrary: w) (auto simp: map_of_cache_delete)

lemma files_fold_cache_delete:
  "cache_wf w \<Longrightarrow> h \<notin> set ks
   \<Longrightarrow> files (fold cache_delete ks w) (path_join (path_join CACHE_DIR (type_name ty)) h)
       = files w (path_join (path_join CACHE_DIR (type_name ty)) h)"
proof (induction ks arbitrary: w)
  case Nil
  then show ?case by simp
next
  case (Cons k ks)
  then show ?case
    using files_cache_delete[of w k h ty] wf_cache_delete[of w k] by auto
qed

lemma wf_cache_set: "cache_wf w \<Longrightarrow> cache_wf (snd (cache_set now newid ty dat md w))"
  unfolding cache_wf_def
  by (auto simp: cache_set_def Let_def CacheItem_def update_conv' distinct_update
        simp del: map_of_eq_Some_iff split: if_splits)

lemma wf_apply_op: "cache_wf w \<Longrightarrow> cache_wf (apply_op now c w)"
proof (cases c)
  case (OpSet newid ty dat md)
  then show "cache_wf w \<Longrightarrow> ?thesis" by (simp add: wf_cache_set)
next
  case (OpGet cid)
  then show "cache_wf w \<Longrightarrow> ?thesis"
    by (auto simp: cache_get_def wf_cache_delete split: option.splits)
next
  case (OpHas cid)
  then show "cache_wf w \<Longrightarrow> ?thesis"
    by (auto simp: cache_has_def wf_cache_delete split: option.splits)
next
  case (OpDelete cid)
  then show "cache_wf w \<Longrightarrow> ?thesis" by (simp add: wf_cache_delete)
next
  case (OpRefresh cid)
  then show "cache_wf w \<Longrightarrow> ?thesis"
    unfolding cache_wf_def
    by (auto simp: cache_refresh_def update_conv' distinct_update
          simp del: map_of_eq_Some_iff split: option.splits if_splits)
next
  case OpCleanup
  then show "cache_wf w \<Longrightarrow> ?thesis" by (simp add: cache_cleanup_def wf_fold_delete)
next
  case OpClear
  then show "cache_wf w \<Longrightarrow> ?thesis" by (simp add: cache_clear_def wf_fold_delete)
qed

lemma wf_exec: "cache_wf w \<Longrightarrow> cache_wf (exec ops w)"
  by (induction ops arbitrary: w) (auto simp: wf_apply_op)

lemma wf_empty_world: "cache_wf empty_world"
  by (simp add: cache_wf_def empty_world_def)


lemma live_step:
  assumes l: "live_in h ty bs e w" and t: "now \<le> e"
    and c: "\<not> sets_id h c" "c \<noteq> OpDelete h" "c \<noteq> OpClear"
  shows "live_in h ty bs (if c = OpRefresh h then now + CACHE_TTL else e) (apply_op now c w)"
proof -
  let ?P = "path_join (path_join CACHE_DIR (type_name ty)) h"
  from l have wf: "cache_wf w" by (simp add: live_in_def)
  from l obtain item where item: "map_of (cache w) h = Some item" "expiresAt item = e"
    "item_type item = ty" by (auto simp: live_in_def)
  from l have f: "files w ?P = Some bs" by (simp add: live_in_def)
  have fp: "filePath item = ?P" using wf item by (auto simp: cache_wf_def)
  have ne: "\<not> isExpired now item" using t item by (simp add: isExpired_def)
  have wf': "cache_wf (apply_op now c w)" using wf by (rule wf_apply_op)
  show ?thesis
  proof (cases c)
    case (OpSet newid ty' dat md)
    then have "newid \<noteq> h" using c by simp
    then have "path_join (path_join CACHE_DIR (type_name ty')) newid \<noteq> ?P"
      using cache_path_inj by metis
    with OpSet \<open>newid \<noteq> h\<close> item f wf' show ?thesis
      unfolding live_in_def
      by (auto simp: cache_set_def Let_def update_conv')
  next
    case (OpGet cid)
    show ?thesis
    proof (cases "cid = h")
      case True
      with OpGet item f fp ne wf show ?thesis
        by (auto simp: live_in_def cache_get_def)
    next
      case False
      with OpGet item f wf wf' show ?thesis
        unfolding live_in_def
        by (auto simp: cache_get_def map_of_cache_delete files_cache_delete split: option.splits)
    qed
  next
    case (OpHas cid)
    show ?thesis
    proof (cases "cid = h")
      case True
      with OpHas item f fp ne wf show ?thesis
        by (auto simp: live_in_def cache_has_def)
    next
      case False
      with OpHas item f wf wf' show ?thesis
        unfolding live_in_def
        by (auto simp: cache_has_def map_of_cache_delete files_cache_delete split: option.splits)
    qed
  next
    case (OpDelete cid)
    then have "cid \<noteq> h" using c by simp
    with OpDelete item f wf wf' show ?thesis
      unfolding live_in_def
      by (auto simp: map_of_cache_delete files_cache_delete)
  next
    case (OpRefresh cid)
    show ?thesis
    proof (cases "cid = h")
      case True
      with OpRefresh item f ne wf' show ?thesis
        unfolding live_in_def
        by (auto simp: cache_refresh_def update_conv')
    next
      case False
      with OpRefresh item f wf' show ?thesis
        unfolding live_in_def
        by (auto simp: cache_refresh_def update_conv' split: option.splits)
    qed
  next
    case OpCleanup
    have "h \<notin> set (map fst (filter (\<lambda>(k, item). isExpired now item) (cache w)))"
    proof
      assume "h \<in> set (map fst (filter (\<lambda>(k, item). isExpired now item) (cache w)))"
      then obtain it where "(h, it) \<in> set (cache w)" "isExpired now it" by auto
      moreover have "distinct (map fst (cache w))" using wf by (simp add: cache_wf_def)
      ultimately have "map_of (cache w) h = Some it \<and> isExpired now it" by simp
      with item ne show False by simp
    qed
    with OpCleanup item f wf wf' show ?thesis
      unfolding live_in_def
      by (auto simp: cache_cleanup_def Let_def map_of_fold_cache_delete files_fold_cache_delete
            simp del: set_map)
  next
    case OpClear
    then show ?thesis using c by simp
  qed
qed


lemma entry_after_op:
  assumes "\<not> sets_id h c"
    and "c = OpRefresh h \<Longrightarrow>
           (case map_of (cache w) h of None \<Rightarrow> True | Some item \<Rightarrow> isExpired now item)"
  shows "map_of (cache (apply_op now c w)) h = None
         \<or> map_of (cache (apply_op now c w)) h = map_of (cache w) h"
proof (cases c)
  case (OpSet newid ty dat md)
  then show ?thesis using assms(1) by (auto simp: cache_set_def Let_def update_conv')
next
  case (OpGet cid)
  then show ?thesis by (auto simp: cache_get_def map_of_cache_delete split: option.splits)
next
  case (OpHas cid)
  then show ?thesis by (auto simp: cache_has_def map_of_cache_delete split: option.splits)
next
  case (OpDelete cid)
  then show ?thesis by (auto simp: map_of_cache_delete)
next
  case (OpRefresh cid)
  then show ?thesis
    using assms(2) by (auto simp: cache_refresh_def update_conv' split: option.splits)
next
  case OpCleanup
  then show ?thesis by (auto simp: cache_cleanup_def Let_def map_of_fold_cache_delete)
next
  case OpClear
  then show ?thesis by (auto simp: cache_clear_def map_of_fold_cache_delete)
qed

lemma gone_step:
  assumes g: "gone_in h t0 w" and t: "t0 \<le> now" and c: "\<not> sets_id h c"
  shows "gone_in h t0 (apply_op now c w)"
proof -
  have wf': "cache_wf (apply_op now c w)" using g by (auto simp: gone_in_def intro: wf_apply_op)
  have "case map_of (cache w) h of None \<Rightarrow> True | Some item \<Rightarrow> isExpired now item"
    using g t by (auto simp: gone_in_def isExpired_def split: option.splits)
  then have "map_of (cache (apply_op now c w)) h = None
         \<or> map_of (cache (apply_op now c w)) h = map_of (cache w) h"
    using c by (intro entry_after_op) auto
  with g wf' show ?thesis by (auto simp: gone_in_def split: option.splits)
qed

lemma gone_exec:
  "gone_in h t0 w \<Longrightarrow> \<forall>x \<in> set ops. t0 \<le> fst x \<and> \<not> sets_id h (snd x)
   \<Longrightarrow> gone_in h t0 (exec ops w)"
proof (induction ops arbitrary: w)
  case Nil
  then show ?case by simp
next
  case (Cons x ops)
  obtain now c where x: "x = (now, c)" by (cases x)
  have "gone_in h t0 (apply_op now c w)"
    using Cons.prems x by (intro gone_step) auto
  then show ?case using Cons x by simp
qed

lemma kill_step:
  assumes l: "live_in h ty bs e w" and c: "\<not> sets_id h c"
    and k: "e < now \<or> c = OpDelete h \<or> c = OpClear"
  shows "gone_in h now (apply_op now c w)"
proof -
  from l have wf: "cache_wf w" by (simp add: live_in_def)
  from l obtain item where item: "map_of (cache w) h = Some item" "expiresAt item = e"
    by (auto simp: live_in_def)
  have wf': "cache_wf (apply_op now c w)" using wf by (rule wf_apply_op)
  show ?thesis
  proof (cases "c = OpDelete h \<or> c = OpClear")
    case True
    have "h \<in> set (map fst (cache w))"
      using item by (metis map_of_eq_None_iff option.distinct(1) set_map)
    then have "map_of (cache (fold cache_delete (map fst (cache w)) w)) h = None"
      by (simp only: map_of_fold_cache_delete if_True)
    with True have "map_of (cache (apply_op now c w)) h = None"
      by (auto simp: map_of_cache_delete cache_clear_def)
    with wf' show ?thesis by (simp add: gone_in_def)
  next
    case False
    with k have e: "e < now" by simp
    then have "case map_of (cache w) h of None \<Rightarrow> True | Some item \<Rightarrow> isExpired now item"
      using item by (simp add: isExpired_def)
    then have "map_of (cache (apply_op now c w)) h = None
         \<or> map_of (cache (apply_op now c w)) h = map_of (cache w) h"
      using c by (intro entry_after_op) auto
    with item e wf' show ?thesis by (auto simp: gone_in_def)
  qed
qed

lemma live_exec:
  assumes "live_in h ty bs e w" "sorted (map fst ops)"
    and "\<forall>x \<in> set ops. fst x \<le> now \<and> \<not> sets_id h (snd x)"
  shows "case live_until h e ops of
           Some e' \<Rightarrow> live_in h ty bs e' (exec ops w)
         | None \<Rightarrow> \<exists>t0 \<le> now. gone_in h t0 (exec ops w)"
  using assms
proof (induction ops arbitrary: e w)
  case Nil
  then show ?case by simp
next
  case (Cons x ops)
  obtain t c where x: "x = (t, c)" by (cases x)
  have c: "\<not> sets_id h c" and t: "t \<le> now" using Cons.prems(3) x by auto
  have later: "\<forall>y \<in> set ops. t \<le> fst y \<and> \<not> sets_id h (snd y)"
    using Cons.prems(2,3) x by auto
  show ?case
  proof (cases "e < t \<or> c = OpDelete h \<or> c = OpClear")
    case True
    then have "gone_in h t (apply_op t c w)"
      using Cons.prems(1) c by (intro kill_step) auto
    then have "gone_in h t (exec ops (apply_op t c w))" using later by (rule gone_exec)
    moreover have "live_until h e (x # ops) = None" using True x by auto
    ultimately show ?thesis using t x by auto
  next
    case False
    let ?e' = "if c = OpRefresh h then t + CACHE_TTL else e"
    have l': "live_in h ty bs ?e' (apply_op t c w)"
      using Cons.prems(1) False c by (intro live_step) auto
    have A: "case live_until h ?e' ops of
           Some e' \<Rightarrow> live_in h ty bs e' (exec ops (apply_op t c w))
         | None \<Rightarrow> \<exists>t0 \<le> now. gone_in h t0 (exec ops (apply_op t c w))"
      using l' Cons.prems(2,3) by (intro Cons.IH) auto
    have B: "live_until h e (x # ops) = live_until h ?e' ops"
      using False x by auto
    have E: "exec (x # ops) w = exec ops (apply_op t c w)" using x by simp
    show ?thesis unfolding B E by (rule A)
  qed
qed

lemma gone_get: "gone_in h t0 w \<Longrightarrow> t0 \<le> now \<Longrightarrow> fst (cache_get now h w) = None"
  by (auto simp: gone_in_def cache_get_def isExpired_def split: option.splits)

lemma live_get:
  assumes "live_in h ty bs e w"
  shows "case fst (cache_get now h w) of
           Some item \<Rightarrow> files w (filePath item) = Some bs \<and> now \<le> e
         | None \<Rightarrow> e < now"
proof -
  from assms have wf: "cache_wf w" by (simp add: live_in_def)
  from assms obtain item where item: "map_of (cache w) h = Some item" "expiresAt item = e"
    "item_type item = ty" by (auto simp: live_in_def)
  have "filePath item = path_join (path_join CACHE_DIR (type_name ty)) h"
    using wf item by (auto simp: cache_wf_def)
  then have "files w (filePath item) = Some bs" using assms by (simp add: live_in_def)
  with item show ?thesis by (auto simp: cache_get_def isExpired_def)
qed

lemma live_after_set:
  assumes "cache_wf w0"
  shows "live_in newid ty bs (t0 + CACHE_TTL) (snd (cache_set t0 newid ty (Buffer bs) md w0))"
  using wf_cache_set[OF assms, of t0 newid ty "Buffer bs" md]
  by (auto simp: live_in_def cache_set_def Let_def CacheItem_def update_conv')

text \<open>
  C4. In a cache reached from the empty one by any calls, \<^verbatim>\<open>set\<close> stores the bytes
  \<open>bs\<close> under the new handle. After any further calls made at non-decreasing times
  (none of them a \<^verbatim>\<open>set\<close> that draws the same UUID again), \<^verbatim>\<open>get\<close> on the handle
  returns an entry exactly when the handle is still live in the spec's sense (no
  \<^verbatim>\<open>delete\<close> of it and no call after its \<open>expiresAt\<close> so far, and \<open>now\<close> not after
  \<open>expiresAt\<close>), and then the file of the entry holds exactly \<open>bs\<close>; otherwise
  \<^verbatim>\<open>get\<close> returns \<^verbatim>\<open>null\<close>.
\<close>

theorem get_returns_put_bytes_while_live:
  assumes "sorted (map fst ops @ [now])"
    and "\<forall>x \<in> set ops. \<not> sets_id newid (snd x)"
  shows "(let (h, w1) = cache_set t0 newid ty (Buffer bs) md (exec pre empty_world);
              w2 = exec ops w1
          in case fst (cache_get now h w2) of
               Some item \<Rightarrow>
                 files w2 (filePath item) = Some bs
                 \<and> (\<exists>e. live_until h (t0 + CACHE_TTL) ops = Some e \<and> now \<le> e)
             | None \<Rightarrow> \<not> (\<exists>e. live_until h (t0 + CACHE_TTL) ops = Some e \<and> now \<le> e))"
proof -
  let ?w0 = "exec pre empty_world"
  let ?w1 = "snd (cache_set t0 newid ty (Buffer bs) md ?w0)"
  let ?w2 = "exec ops ?w1"
  have h: "fst (cache_set t0 newid ty (Buffer bs) md ?w0) = newid"
    by (simp add: cache_set_def Let_def)
  have "cache_wf ?w0" using wf_empty_world by (rule wf_exec)
  then have l1: "live_in newid ty bs (t0 + CACHE_TTL) ?w1" by (rule live_after_set)
  have s: "sorted (map fst ops)" and b: "\<forall>x \<in> set ops. fst x \<le> now"
    using assms(1) by (auto simp: sorted_append)
  have ex: "case live_until newid (t0 + CACHE_TTL) ops of
           Some e' \<Rightarrow> live_in newid ty bs e' ?w2
         | None \<Rightarrow> \<exists>t1 \<le> now. gone_in newid t1 ?w2"
    using l1 s b assms(2) by (intro live_exec) auto
  have main: "case fst (cache_get now newid ?w2) of
               Some item \<Rightarrow>
                 files ?w2 (filePath item) = Some bs
                 \<and> (\<exists>e. live_until newid (t0 + CACHE_TTL) ops = Some e \<and> now \<le> e)
             | None \<Rightarrow> \<not> (\<exists>e. live_until newid (t0 + CACHE_TTL) ops = Some e \<and> now \<le> e)"
  proof (cases "live_until newid (t0 + CACHE_TTL) ops")
    case None
    with ex obtain t1 where "t1 \<le> now" "gone_in newid t1 ?w2" by auto
    then have "fst (cache_get now newid ?w2) = None" by (intro gone_get)
    with None show ?thesis by simp
  next
    case (Some e)
    with ex have "live_in newid ty bs e ?w2" by simp
    from live_get[OF this, of now] Some show ?thesis
      by (auto split: option.splits)
  qed
  show ?thesis unfolding Let_def split_beta h by (rule main)
qed


text \<open>
  Witness for C4: the handle is refreshed at 3000, so at 303000 (after the first
  \<open>expiresAt\<close>, not after the second) \<^verbatim>\<open>get\<close> still returns the three bytes.
\<close>

theorem get_returns_put_bytes_while_live_witness:
  "(let ops = [(2000, OpHas ''h1''), (3000, OpRefresh ''h1''),
               (4000, OpSet ''h2'' OUTPUT (Text ''3'') no_metadata), (5000, OpCleanup),
               (6000, OpDelete ''h2'')];
        (h, w1) = cache_set 1000 ''h1'' INPUT (Buffer [49, 32, 50]) no_metadata (exec [] empty_world);
        w2 = exec ops w1
    in sorted (map fst ops @ [303000])
       \<and> live_until ''h1'' (1000 + CACHE_TTL) ops = Some 303000
       \<and> (\<exists>item. fst (cache_get 303000 h w2) = Some item
             \<and> files w2 (filePath item) = Some [49, 32, 50]))"
proof -
  let ?ops = "[(2000, OpHas ''h1''), (3000, OpRefresh ''h1''),
               (4000, OpSet ''h2'' OUTPUT (Text ''3'') no_metadata), (5000, OpCleanup),
               (6000, OpDelete ''h2'')]"
  have s: "sorted (map fst ?ops @ [303000 :: int])" by simp
  have n: "\<forall>x \<in> set ?ops. \<not> sets_id ''h1'' (snd x)" by simp
  have l: "live_until ''h1'' (1000 + CACHE_TTL) ?ops = Some 303000" by code_simp
  have h: "fst (cache_set 1000 ''h1'' INPUT (Buffer [49, 32, 50]) no_metadata (exec [] empty_world)) = ''h1''"
    by (simp add: cache_set_def Let_def)
  from get_returns_put_bytes_while_live[OF s n, of 1000 INPUT "[49, 32, 50]" no_metadata "[]"] l h
  have "\<exists>item. fst (cache_get 303000 ''h1''
           (exec ?ops (snd (cache_set 1000 ''h1'' INPUT (Buffer [49, 32, 50]) no_metadata (exec [] empty_world)))))
           = Some item
         \<and> files (exec ?ops (snd (cache_set 1000 ''h1'' INPUT (Buffer [49, 32, 50]) no_metadata (exec [] empty_world))))
              (filePath item) = Some [49, 32, 50]"
    unfolding Let_def split_beta by (auto split: option.splits)
  with s l h show ?thesis unfolding Let_def split_beta by simp
qed













section \<open>Properties of the pipeline handlers\<close>

subsection \<open>Rules for the parts of a handler\<close>

lemmas io_defs = and_then_def return_def throw_def try_finally_def call_sandbox_def
  Date_now_def cacheManager_get_def cacheManager_set_def readFileSync_def writeFileSync_def
  copyFileSync_def createUniqueTempDir_def

lemma wp_return [simp]: "wp (return x) Q w = Q (Inr x) [] w"
  by (simp add: wp_def return_def)

lemma wp_throw [simp]: "wp (throw msg) Q w = Q (Inl msg) [] w"
  by (simp add: wp_def throw_def)

lemma wp_and_then [simp]:
  "wp (and_then m f) Q w =
     wp m (\<lambda>outcome calls w1.
             case outcome of
               Inl msg \<Rightarrow> Q (Inl msg) calls w1
             | Inr x \<Rightarrow> wp (f x) (\<lambda>outcome' calls' w2. Q outcome' (calls @ calls') w2) w1) w"
  by (simp add: wp_def and_then_def split: prod.split sum.split)

lemma wp_try_finally [simp]:
  "wp (try_finally m fin) Q w = wp m (\<lambda>outcome calls w1. Q outcome calls (fin w1)) w"
  by (simp add: wp_def try_finally_def split: prod.split)

lemma wp_call_sandbox [simp]:
  "wp (call_sandbox ev f) Q w = (case f w of (r, w') \<Rightarrow> Q r [ev r] w')"
  by (simp add: wp_def call_sandbox_def split: prod.split)

lemma wp_Date_now [simp]: "wp Date_now Q w = Q (Inr (clock w)) [] w"
  by (simp add: wp_def Date_now_def)

lemma wp_cacheManager_get [simp]:
  "wp (cacheManager_get cid) Q w = (case cache_get (clock w) cid w of (r, w') \<Rightarrow> Q (Inr r) [] w')"
  by (simp add: wp_def cacheManager_get_def split: prod.split)

lemma wp_cacheManager_set [simp]:
  "wp (cacheManager_set newid ty dat md) Q w =
     (case cache_set (clock w) newid ty dat md w of (r, w') \<Rightarrow> Q (Inr r) [] w')"
  by (simp add: wp_def cacheManager_set_def split: prod.split)

lemma wp_readFileSync [simp]:
  "wp (readFileSync path) Q w =
     (case files w path of
        None \<Rightarrow> Q (Inl (''ENOENT: no such file or directory, open '' @ path)) [] w
      | Some content \<Rightarrow> Q (Inr content) [] w)"
  by (simp add: wp_def readFileSync_def split: option.split)

lemma wp_writeFileSync [simp]:
  "wp (writeFileSync path content) Q w = Q (Inr ()) [] (w\<lparr>files := (files w)(path \<mapsto> content)\<rparr>)"
  by (simp add: wp_def writeFileSync_def)

lemma wp_copyFileSync [simp]:
  "wp (copyFileSync src dest) Q w =
     (case files w src of
        None \<Rightarrow> Q (Inl (''ENOENT: no such file or directory, open '' @ src)) [] w
      | Some content \<Rightarrow> Q (Inr ()) [] (w\<lparr>files := (files w)(dest \<mapsto> content)\<rparr>))"
  by (simp add: copyFileSync_def split: option.split)

lemma wp_createUniqueTempDir [simp]:
  "wp (createUniqueTempDir prefix uuid) Q w =
     Q (Inr (path_join ''/tmp'' (prefix @ ''-'' @ decimal (clock w) @ ''-'' @ uuid))) [] w"
  by (simp add: createUniqueTempDir_def)

lemma wp_True [simp]: "wp m (\<lambda>outcome calls w'. True) w"
  by (simp add: wp_def split: prod.split)

lemma wpI: "wp m Q w \<Longrightarrow> m w = (outcome, calls, w') \<Longrightarrow> Q outcome calls w'"
  by (simp add: wp_def)

lemma wp_mono:
  "wp m P w \<Longrightarrow> (\<And>outcome calls w'. P outcome calls w' \<Longrightarrow> Q outcome calls w') \<Longrightarrow> wp m Q w"
  by (auto simp: wp_def split: prod.splits)

lemma alwaysD:
  assumes "always m P" and "m w = (outcome, calls, w')"
  shows "P outcome calls"
proof -
  have "wp m (\<lambda>outcome calls w'. P outcome calls) w" using assms(1) by (simp add: always_def)
  then show ?thesis using assms(2) by (simp add: wp_def)
qed

lemma always_return [simp]: "always (return x) P = P (Inr x) []"
  by (simp add: always_def)

lemma always_throw [simp]: "always (throw msg) P = P (Inl msg) []"
  by (simp add: always_def)

lemma always_and_then:
  assumes "always m (\<lambda>outcome calls.
             case outcome of
               Inl msg \<Rightarrow> P (Inl msg) calls
             | Inr x \<Rightarrow> always (f x) (\<lambda>outcome' calls'. P outcome' (calls @ calls')))"
  shows "always (and_then m f) P"
  unfolding always_def
proof
  fix w
  have "wp m (\<lambda>outcome calls w'. case outcome of
               Inl msg \<Rightarrow> P (Inl msg) calls
             | Inr x \<Rightarrow> always (f x) (\<lambda>outcome' calls'. P outcome' (calls @ calls'))) w"
    using assms by (simp add: always_def)
  then show "wp (and_then m f) (\<lambda>outcome calls w'. P outcome calls) w"
    unfolding wp_and_then
    by (rule wp_mono) (auto simp: always_def split: sum.splits)
qed

lemma always_try_finally: "always m P \<Longrightarrow> always (try_finally m fin) P"
  by (simp add: always_def)

lemma always_call_sandbox: "(\<And>r. P r [ev r]) \<Longrightarrow> always (call_sandbox ev f) P"
  by (simp add: always_def split: prod.split)

lemma always_Date_now: "(\<And>t. P (Inr t) []) \<Longrightarrow> always Date_now P"
  by (simp add: always_def)

lemma always_cacheManager_get: "(\<And>r. P (Inr r) []) \<Longrightarrow> always (cacheManager_get cid) P"
  by (simp add: always_def split: prod.split)

lemma always_cacheManager_set:
  "(\<And>r. P (Inr r) []) \<Longrightarrow> always (cacheManager_set newid ty dat md) P"
  by (simp add: always_def split: prod.split)

lemma always_readFileSync: "(\<And>r. P r []) \<Longrightarrow> always (readFileSync path) P"
  by (simp add: always_def split: option.split)

lemma always_writeFileSync: "P (Inr ()) [] \<Longrightarrow> always (writeFileSync path content) P"
  by (simp add: always_def)

lemma always_copyFileSync: "(\<And>r. P r []) \<Longrightarrow> always (copyFileSync src dest) P"
  by (simp add: always_def split: option.split)

lemma always_createUniqueTempDir:
  "(\<And>r. P (Inr r) []) \<Longrightarrow> always (createUniqueTempDir prefix uuid) P"
  by (simp add: always_def)

lemmas always_intros = always_and_then always_try_finally always_call_sandbox always_Date_now
  always_cacheManager_get always_cacheManager_set always_readFileSync always_writeFileSync
  always_copyFileSync always_createUniqueTempDir

lemma always_mono:
  "always m P \<Longrightarrow> (\<And>outcome calls. P outcome calls \<Longrightarrow> Q outcome calls) \<Longrightarrow> always m Q"
  unfolding always_def by (blast intro: wp_mono)

lemma wp_always: "always m P \<Longrightarrow> wp m (\<lambda>outcome calls w'. P outcome calls) w"
  by (simp add: always_def)

subsection \<open>The verdict of a judge task\<close>

lemma getCheckerPath_always:
  "always (getCheckerPath sb checker)
     (\<lambda>outcome calls. \<forall>c \<in> set calls. \<exists>r. c = CompileChecker checker r)"
  unfolding getCheckerPath_def
  apply (simp split: if_split)
  apply (intro conjI impI always_intros | simp split: sum.split option.split)+
  done

lemma judge_check_always:
  "always (judge_check sb checker inputPath outputPath answerPath' runResult)
     (\<lambda>outcome calls.
        (\<forall>cargs cr. RunChecker cargs (Inr cr) \<in> set calls \<longrightarrow>
           outcome = Inr (judge_verdict runResult cr))
        \<and> (\<forall>args r. RunProgram args r \<notin> set calls))"
  unfolding judge_check_def getCheckerPath_def Let_def
  apply (intro always_intros allI conjI impI | simp split: sum.split option.split)+
  done

lemma judge_try_always:
  "always (judge_try sb d bc ic oc tmp)
     (\<lambda>outcome calls.
        \<forall>args prun cargs cr.
          RunProgram args (Inr prun) \<in> set calls \<and> RunChecker cargs (Inr cr) \<in> set calls \<longrightarrow>
          outcome = Inr (judge_verdict prun cr))"
  unfolding judge_try_def Let_def
  apply (intro always_intros allI conjI impI always_mono[OF judge_check_always]
         | simp split: sum.split option.split)+
  done

lemma handleJudge_always:
  "always (handleJudge sb uuid d)
     (\<lambda>outcome calls.
        \<forall>args prun cargs cr.
          RunProgram args (Inr prun) \<in> set calls \<and> RunChecker cargs (Inr cr) \<in> set calls \<longrightarrow>
          outcome = Inr (judge_verdict prun cr))"
  unfolding handleJudge_def
  apply (intro always_intros allI conjI impI always_mono[OF judge_try_always]
         | simp split: sum.split option.split)+
  done

text \<open>
  C3. In every run of \<^verbatim>\<open>handleJudge\<close> in which \<^verbatim>\<open>runProgram\<close> returned \<open>prun\<close> and
  \<^verbatim>\<open>runChecker\<close> returned \<open>cr\<close> (the checker is called only after a clean exit of
  the program, status 1 and code 0), the handler returns a reply whose status follows
  from \<open>normalizedScore cr\<close> alone: \<^verbatim>\<open>accepted\<close> from 1 up, \<^verbatim>\<open>partial-accepted\<close>
  strictly between 0 and 1, \<^verbatim>\<open>wrong-answer\<close> from 0 down. The reply carries the score
  and the normalized score of the checker, the time, the memory and the output of the
  run, and the message of the checker.
\<close>

theorem judge_verdict_from_normalizedScore:
  "case handleJudge sb uuid d w of
     (outcome, calls, w') \<Rightarrow>
       (\<forall>args prun cargs cr.
          RunProgram args (Inr prun) \<in> set calls \<and> RunChecker cargs (Inr cr) \<in> set calls \<longrightarrow>
          (\<exists>reply. outcome = Inr reply
             \<and> (normalizedScore cr \<ge> 1 \<longrightarrow> judge_status reply = ''accepted'')
             \<and> (0 < normalizedScore cr \<and> normalizedScore cr < 1
                   \<longrightarrow> judge_status reply = ''partial-accepted'')
             \<and> (normalizedScore cr \<le> 0 \<longrightarrow> judge_status reply = ''wrong-answer'')
             \<and> judge_score reply = Some (score cr)
             \<and> judge_normalizedScore reply = Some (normalizedScore cr)
             \<and> judge_time reply = res_time (run_result prun)
             \<and> judge_memory reply = res_memory (run_result prun)
             \<and> judge_output reply = run_output prun
             \<and> checkerMessage reply = Some (message cr)))"
proof -
  obtain outcome calls w' where h: "handleJudge sb uuid d w = (outcome, calls, w')"
    by (cases "handleJudge sb uuid d w") auto
  have v: "\<forall>args prun cargs cr.
          RunProgram args (Inr prun) \<in> set calls \<and> RunChecker cargs (Inr cr) \<in> set calls \<longrightarrow>
          outcome = Inr (judge_verdict prun cr)"
    using alwaysD[OF handleJudge_always h] .
  have "\<And>prun cr. \<exists>reply. Inr (judge_verdict prun cr) = (Inr reply :: string + judge_reply)
             \<and> (normalizedScore cr \<ge> 1 \<longrightarrow> judge_status reply = ''accepted'')
             \<and> (0 < normalizedScore cr \<and> normalizedScore cr < 1
                   \<longrightarrow> judge_status reply = ''partial-accepted'')
             \<and> (normalizedScore cr \<le> 0 \<longrightarrow> judge_status reply = ''wrong-answer'')
             \<and> judge_score reply = Some (score cr)
             \<and> judge_normalizedScore reply = Some (normalizedScore cr)
             \<and> judge_time reply = res_time (run_result prun)
             \<and> judge_memory reply = res_memory (run_result prun)
             \<and> judge_output reply = run_output prun
             \<and> checkerMessage reply = Some (message cr)"
    by (simp add: judge_verdict_def)
  with v show ?thesis unfolding h by (simp only: prod.case) metis
qed

lemma list_ex_RunProgram:
  assumes "list_ex (\<lambda>c. case c of RunProgram a r \<Rightarrow> r = x | _ \<Rightarrow> False) cs"
  shows "\<exists>a. RunProgram a x \<in> set cs"
proof -
  from assms obtain c where c: "c \<in> set cs"
    "case c of RunProgram a r \<Rightarrow> r = x | _ \<Rightarrow> False"
    unfolding list_ex_iff by blast
  show ?thesis
  proof (cases c)
    case (RunProgram a r)
    with c have "RunProgram a x \<in> set cs" by simp
    then show ?thesis ..
  qed (use c in simp_all)
qed

lemma list_ex_RunChecker:
  assumes "list_ex (\<lambda>c. case c of RunChecker a r \<Rightarrow> r = x | _ \<Rightarrow> False) cs"
  shows "\<exists>a. RunChecker a x \<in> set cs"
proof -
  from assms obtain c where c: "c \<in> set cs"
    "case c of RunChecker a r \<Rightarrow> r = x | _ \<Rightarrow> False"
    unfolding list_ex_iff by blast
  show ?thesis
  proof (cases c)
    case (RunChecker a r)
    with c have "RunChecker a x \<in> set cs" by simp
    then show ?thesis ..
  qed (use c in simp_all)
qed

text \<open>
  Witness for C3: the program exits cleanly and the checker \<^verbatim>\<open>ncmp\<close> gives the
  normalized score 1/2.
\<close>

theorem judge_verdict_from_normalizedScore_witness:
  "(case handleJudge
          (stub_sandbox (stub_compile True) (stub_run 1 0) (stub_check (1 / 2)) stub_interaction)
          ''u1'' (judge_b1_i1_o1 (Some ''ncmp'')) stored_world of
      (outcome, calls, w') \<Rightarrow>
        (\<exists>args. RunProgram args (Inr (stub_run 1 0)) \<in> set calls)
        \<and> (\<exists>cargs. RunChecker cargs (Inr (stub_check (1 / 2))) \<in> set calls)
        \<and> (\<exists>reply. outcome = Inr reply
              \<and> judge_status reply = ''partial-accepted''
              \<and> judge_normalizedScore reply = Some (1 / 2)
              \<and> checkerMessage reply = Some ''checked''))"
proof -
  let ?sb = "stub_sandbox (stub_compile True) (stub_run 1 0) (stub_check (1 / 2)) stub_interaction"
  let ?d = "judge_b1_i1_o1 (Some ''ncmp'')"
  obtain outcome calls w' where h: "handleJudge ?sb ''u1'' ?d stored_world = (outcome, calls, w')"
    by (cases "handleJudge ?sb ''u1'' ?d stored_world") auto
  have "list_ex (\<lambda>c. case c of RunProgram a r \<Rightarrow> r = Inr (stub_run 1 0) | _ \<Rightarrow> False)
          (fst (snd (handleJudge ?sb ''u1'' ?d stored_world)))"
    by code_simp
  then obtain args where a: "RunProgram args (Inr (stub_run 1 0)) \<in> set calls"
    unfolding h using list_ex_RunProgram by fastforce
  have "list_ex (\<lambda>c. case c of RunChecker a r \<Rightarrow> r = Inr (stub_check (1 / 2)) | _ \<Rightarrow> False)
          (fst (snd (handleJudge ?sb ''u1'' ?d stored_world)))"
    by code_simp
  then obtain cargs where b: "RunChecker cargs (Inr (stub_check (1 / 2))) \<in> set calls"
    unfolding h using list_ex_RunChecker by fastforce
  from judge_verdict_from_normalizedScore[of ?sb "''u1''" ?d stored_world] a b
  obtain reply where "outcome = Inr reply"
    "0 < normalizedScore (stub_check (1 / 2)) \<and> normalizedScore (stub_check (1 / 2)) < 1
       \<longrightarrow> judge_status reply = ''partial-accepted''"
    "judge_normalizedScore reply = Some (normalizedScore (stub_check (1 / 2)))"
    "checkerMessage reply = Some (message (stub_check (1 / 2)))"
    unfolding h by (simp only: prod.case) blast
  then have "\<exists>reply. outcome = Inr reply
              \<and> judge_status reply = ''partial-accepted''
              \<and> judge_normalizedScore reply = Some (1 / 2)
              \<and> checkerMessage reply = Some ''checked''"
    by (simp add: stub_check_def)
  with a b show ?thesis unfolding h by (simp only: prod.case) blast
qed

subsection \<open>The classification of the run\<close>

lemma judge_check_always2:
  "always (judge_check sb checker inputPath outputPath answerPath' runResult)
     (\<lambda>outcome calls.
        \<forall>reply. outcome = Inr reply \<longrightarrow>
          checkerMessage reply \<noteq> None
          \<and> (\<exists>cargs cr. RunChecker cargs (Inr cr) \<in> set calls))"
  unfolding judge_check_def getCheckerPath_def Let_def
  apply (intro always_intros allI conjI impI | simp add: judge_verdict_def split: sum.split option.split)+
  done

lemma run_classified_Nil [simp]:
  "run_classified outcome [] = (\<exists>msg. outcome = Inl msg)"
  by (simp add: run_classified_def)

lemma run_classified_Cons [simp]:
  "run_classified outcome (RunProgram args r # rest) =
     (case r of
        Inl msg \<Rightarrow> outcome = Inl msg \<and> rest = []
      | Inr prun \<Rightarrow>
          if res_status (run_result prun) = 1 \<and> res_code (run_result prun) = 0
          then \<forall>reply. outcome = Inr reply \<longrightarrow>
                 checkerMessage reply \<noteq> None
                 \<and> (\<exists>cargs cr. RunChecker cargs (Inr cr) \<in> set rest)
          else outcome = Inr (judge_stopped prun) \<and> rest = [])"
  by (simp add: run_classified_def)

lemma judge_try_classified:
  "always (judge_try sb d bc ic oc tmp) run_classified"
  unfolding judge_try_def Let_def
  apply (intro always_intros allI conjI impI always_mono[OF judge_check_always2]
         | simp split: sum.split option.split)+
  done

lemma handleJudge_classified:
  "always (handleJudge sb uuid d) run_classified"
  unfolding handleJudge_def
  apply (intro always_intros allI conjI impI always_mono[OF judge_try_classified]
         | simp split: sum.split option.split)+
  done

lemma cache_get_live:
  assumes "fst (cache_get now cid w) = Some item"
  shows "cache_get now cid w = (Some item, w)" "files w (filePath item) \<noteq> None"
  using assms by (auto simp: cache_get_def split: option.splits if_splits)

lemma wp_has_read:
  assumes "p \<in> S" "has_files S w"
    and "\<And>content. wp (f content) Q w"
  shows "wp (and_then (readFileSync p) f) Q w"
  using assms by (auto simp: has_files_def split: option.split)

lemma wp_has_write:
  assumes "has_files S w"
    and "\<And>w'. has_files S w' \<Longrightarrow> wp (f ()) Q w'"
  shows "wp (and_then (writeFileSync p content) f) Q w"
proof -
  have "has_files S (w\<lparr>files := (files w)(p \<mapsto> content)\<rparr>)"
    using assms(1) by (auto simp: has_files_def)
  then show ?thesis using assms(2) by simp
qed

lemma wp_has_copy:
  assumes "src \<in> S" "has_files S w"
    and "\<And>w'. has_files S w' \<Longrightarrow> wp (f ()) Q w'"
  shows "wp (and_then (copyFileSync src dest) f) Q w"
proof -
  obtain content where c: "files w src = Some content"
    using assms(1,2) by (auto simp: has_files_def)
  have "has_files S (w\<lparr>files := (files w)(dest \<mapsto> content)\<rparr>)"
    using assms(2) by (auto simp: has_files_def)
  then show ?thesis using assms(3) c by simp
qed

lemma wp_get_live:
  assumes "cache_get (clock w) cid w = (Some item, w)"
    and "wp (f (Some item)) Q w"
  shows "wp (and_then (cacheManager_get cid) f) Q w"
  using assms by simp

lemma run_call_nonempty:
  "always (and_then (call_sandbox ev f) g) (\<lambda>outcome calls. calls \<noteq> [])"
  by (intro always_intros | simp add: always_def split: sum.split)+

lemma handleJudge_reaches_run:
  assumes "fst (cache_get (clock w) (data_binaryCacheId d) w) \<noteq> None"
    and "fst (cache_get (clock w) (data_inputCacheId d) w) \<noteq> None"
    and "fst (cache_get (clock w) (data_outputCacheId d) w) \<noteq> None"
  shows "wp (handleJudge sb uuid d) (\<lambda>outcome calls w'. calls \<noteq> []) w"
proof -
  from assms obtain bc ic oc where
    g: "fst (cache_get (clock w) (data_binaryCacheId d) w) = Some bc"
       "fst (cache_get (clock w) (data_inputCacheId d) w) = Some ic"
       "fst (cache_get (clock w) (data_outputCacheId d) w) = Some oc"
    by auto
  note l = cache_get_live[OF g(1)] cache_get_live[OF g(2)] cache_get_live[OF g(3)]
  let ?S = "{filePath bc, filePath ic, filePath oc}"
  have S: "has_files ?S w" using l by (simp add: has_files_def)
  have t: "\<And>tmp w1. has_files ?S w1 \<Longrightarrow>
             wp (judge_try sb d bc ic oc tmp) (\<lambda>outcome calls w'. calls \<noteq> []) w1"
    unfolding judge_try_def Let_def
    apply (rule wp_has_read[where S = ?S], simp, assumption)
    apply (rule wp_has_write[where S = ?S], assumption)
    apply (rule wp_has_copy[where S = ?S], simp, assumption)
    apply (rule wp_has_copy[where S = ?S], simp, assumption)
    apply (rule wp_always[OF run_call_nonempty])
    done
  show ?thesis
    unfolding handleJudge_def
    apply (rule wp_get_live[OF l(1)])
    apply (rule wp_get_live[OF l(3)])
    apply (rule wp_get_live[OF l(5)])
    apply (simp add: t[OF S])
    done
qed

text \<open>
  C2. For a judge task whose three handles are live, the first call of
  \<^verbatim>\<open>handleJudge\<close> to the library is \<^verbatim>\<open>runProgram\<close>, and when it returns \<open>prun\<close>:
  status 2 gives \<^verbatim>\<open>time-limit-exceeded\<close>, status 3 gives \<^verbatim>\<open>memory-limit-exceeded\<close>,
  any other status, or status 1 with a code other than 0, gives \<^verbatim>\<open>runtime-error\<close>; in
  these three cases no further call is made (\<open>rest = []\<close>, so no checker is compiled or
  run) and the reply has no \<^verbatim>\<open>checkerMessage\<close>, no score and no normalized score. With
  status 1 and code 0 a reply is returned only after a call of \<^verbatim>\<open>runChecker\<close>, and it
  carries a \<^verbatim>\<open>checkerMessage\<close>.
\<close>

theorem judge_classifies_run_before_checker:
  assumes "fst (cache_get (clock w) (data_binaryCacheId d) w) \<noteq> None"
    and "fst (cache_get (clock w) (data_inputCacheId d) w) \<noteq> None"
    and "fst (cache_get (clock w) (data_outputCacheId d) w) \<noteq> None"
  shows "case handleJudge sb uuid d w of
     (outcome, calls, w') \<Rightarrow>
       (\<exists>args r rest. calls = RunProgram args r # rest
          \<and> (\<forall>prun. r = Inr prun \<longrightarrow>
               (let stopped = (\<lambda>verdict.
                      outcome = Inr \<lparr>judge_status = verdict, judge_score = None,
                                     judge_normalizedScore = None,
                                     judge_time = res_time (run_result prun),
                                     judge_memory = res_memory (run_result prun),
                                     judge_output = run_output prun,
                                     judge_error = Some (run_error prun),
                                     checkerMessage = None\<rparr>
                      \<and> rest = [])
                in (res_status (run_result prun) = 2 \<longrightarrow> stopped ''time-limit-exceeded'')
                 \<and> (res_status (run_result prun) = 3 \<longrightarrow> stopped ''memory-limit-exceeded'')
                 \<and> (res_status (run_result prun) \<noteq> 2 \<and> res_status (run_result prun) \<noteq> 3
                      \<and> (res_status (run_result prun) \<noteq> 1 \<or> res_code (run_result prun) \<noteq> 0)
                        \<longrightarrow> stopped ''runtime-error'')
                 \<and> (res_status (run_result prun) = 1 \<and> res_code (run_result prun) = 0
                        \<longrightarrow> (\<forall>reply. outcome = Inr reply \<longrightarrow>
                               checkerMessage reply \<noteq> None
                               \<and> (\<exists>cargs cr. RunChecker cargs (Inr cr) \<in> set rest))))))"
proof -
  obtain outcome calls w' where h: "handleJudge sb uuid d w = (outcome, calls, w')"
    by (cases "handleJudge sb uuid d w") auto
  have c: "run_classified outcome calls"
    using alwaysD[OF handleJudge_classified h] .
  have n: "calls \<noteq> []"
    using wpI[OF handleJudge_reaches_run[OF assms] h] .
  from c n obtain args r rest where r: "calls = RunProgram args r # rest"
    and k: "case r of
              Inl msg \<Rightarrow> outcome = Inl msg \<and> rest = []
            | Inr prun \<Rightarrow>
                if res_status (run_result prun) = 1 \<and> res_code (run_result prun) = 0
                then \<forall>reply. outcome = Inr reply \<longrightarrow>
                       checkerMessage reply \<noteq> None
                       \<and> (\<exists>cargs cr. RunChecker cargs (Inr cr) \<in> set rest)
                else outcome = Inr (judge_stopped prun) \<and> rest = []"
    by (auto simp: run_classified_def)
  have "\<forall>prun. r = Inr prun \<longrightarrow>
               (let stopped = (\<lambda>verdict.
                      outcome = Inr \<lparr>judge_status = verdict, judge_score = None,
                                     judge_normalizedScore = None,
                                     judge_time = res_time (run_result prun),
                                     judge_memory = res_memory (run_result prun),
                                     judge_output = run_output prun,
                                     judge_error = Some (run_error prun),
                                     checkerMessage = None\<rparr>
                      \<and> rest = [])
                in (res_status (run_result prun) = 2 \<longrightarrow> stopped ''time-limit-exceeded'')
                 \<and> (res_status (run_result prun) = 3 \<longrightarrow> stopped ''memory-limit-exceeded'')
                 \<and> (res_status (run_result prun) \<noteq> 2 \<and> res_status (run_result prun) \<noteq> 3
                      \<and> (res_status (run_result prun) \<noteq> 1 \<or> res_code (run_result prun) \<noteq> 0)
                        \<longrightarrow> stopped ''runtime-error'')
                 \<and> (res_status (run_result prun) = 1 \<and> res_code (run_result prun) = 0
                        \<longrightarrow> (\<forall>reply. outcome = Inr reply \<longrightarrow>
                               checkerMessage reply \<noteq> None
                               \<and> (\<exists>cargs cr. RunChecker cargs (Inr cr) \<in> set rest))))"
    using k by (auto simp: Let_def judge_stopped_def)
  then show ?thesis unfolding h using r by simp
qed

text \<open>
  Witness for C2: the three handles are live in the stocked cache and the program runs
  out of time.
\<close>

theorem judge_classifies_run_before_checker_witness:
  "(let sb = stub_sandbox (stub_compile True) (stub_run 2 0) (stub_check 1) stub_interaction;
        d = judge_b1_i1_o1 None;
        w = stored_world
    in fst (cache_get (clock w) (data_binaryCacheId d) w) \<noteq> None
       \<and> fst (cache_get (clock w) (data_inputCacheId d) w) \<noteq> None
       \<and> fst (cache_get (clock w) (data_outputCacheId d) w) \<noteq> None
       \<and> (case handleJudge sb ''u1'' d w of
             (outcome, calls, w') \<Rightarrow>
               length calls = 1
               \<and> (\<exists>reply. outcome = Inr reply
                     \<and> judge_status reply = ''time-limit-exceeded''
                     \<and> checkerMessage reply = None)))"
proof -
  let ?sb = "stub_sandbox (stub_compile True) (stub_run 2 0) (stub_check 1) stub_interaction"
  let ?d = "judge_b1_i1_o1 None"
  have l1: "fst (cache_get (clock stored_world) (data_binaryCacheId ?d) stored_world) \<noteq> None"
    by code_simp
  have l2: "fst (cache_get (clock stored_world) (data_inputCacheId ?d) stored_world) \<noteq> None"
    by code_simp
  have l3: "fst (cache_get (clock stored_world) (data_outputCacheId ?d) stored_world) \<noteq> None"
    by code_simp
  obtain outcome calls w' where h: "handleJudge ?sb ''u1'' ?d stored_world = (outcome, calls, w')"
    by (cases "handleJudge ?sb ''u1'' ?d stored_world") auto
  have e: "case fst (snd (handleJudge ?sb ''u1'' ?d stored_world)) of
             [] \<Rightarrow> False
           | c # cs \<Rightarrow> (case c of RunProgram a r \<Rightarrow> r = Inr (stub_run 2 0) | _ \<Rightarrow> False)"
    by code_simp
  from judge_classifies_run_before_checker[OF l1 l2 l3, of ?sb "''u1''"]
  obtain args r rest where c: "calls = RunProgram args r # rest"
    and k: "\<forall>prun. r = Inr prun \<longrightarrow>
              (res_status (run_result prun) = 2 \<longrightarrow>
                 outcome = Inr \<lparr>judge_status = ''time-limit-exceeded'', judge_score = None,
                                judge_normalizedScore = None,
                                judge_time = res_time (run_result prun),
                                judge_memory = res_memory (run_result prun),
                                judge_output = run_output prun,
                                judge_error = Some (run_error prun),
                                checkerMessage = None\<rparr>
                 \<and> rest = [])"
    unfolding h by (auto simp: Let_def)
  from e c have "r = Inr (stub_run 2 0)" unfolding h by simp
  moreover have "res_status (run_result (stub_run 2 0)) = 2" by (simp add: stub_run_def)
  ultimately have "length calls = 1
               \<and> (\<exists>reply. outcome = Inr reply
                     \<and> judge_status reply = ''time-limit-exceeded''
                     \<and> checkerMessage reply = None)"
    using k c by auto
  then show ?thesis unfolding Let_def h using l1 l2 l3 by simp
qed

subsection \<open>Cleanup after a compilation\<close>

lemma handleCompile_always: "always (handleCompile sb newid d) cleanup_on_success"
  unfolding handleCompile_def Let_def
  apply (intro always_intros allI conjI impI
         | simp add: cleanup_on_success_def split: sum.split option.split)+
  done

lemma handleCompileChecker_always: "always (handleCompileChecker sb newid d) cleanup_on_success"
  unfolding handleCompileChecker_def Let_def
  apply (intro always_intros allI conjI impI
         | simp add: cleanup_on_success_def split: sum.split option.split)+
  done

text \<open>
  C7, as the code has it. \<^verbatim>\<open>handleCompile\<close> and \<^verbatim>\<open>handleCompileChecker\<close> call
  \<^verbatim>\<open>cleanupTempDir\<close> on the \<^verbatim>\<open>tempDir\<close> returned by \<^verbatim>\<open>compile\<close> on the path that
  returns \<^verbatim>\<open>success: true\<close>, and on no other path: when \<^verbatim>\<open>compile\<close> returns
  \<^verbatim>\<open>success: false\<close> the handler returns the failure reply and \<^verbatim>\<open>compile\<close> is its
  only call.
\<close>

theorem cleanupTempDir_only_after_successful_compile:
  "(case handleCompile sb newid d w of
      (outcome, calls, w') \<Rightarrow> cleanup_on_success outcome calls)
   \<and> (case handleCompileChecker sb newid d w of
        (outcome, calls, w') \<Rightarrow> cleanup_on_success outcome calls)"
proof
  obtain outcome calls w' where h: "handleCompile sb newid d w = (outcome, calls, w')"
    by (cases "handleCompile sb newid d w") auto
  show "case handleCompile sb newid d w of
          (outcome, calls, w') \<Rightarrow> cleanup_on_success outcome calls"
    unfolding h using alwaysD[OF handleCompile_always h] by simp
next
  obtain outcome calls w' where h: "handleCompileChecker sb newid d w = (outcome, calls, w')"
    by (cases "handleCompileChecker sb newid d w") auto
  show "case handleCompileChecker sb newid d w of
          (outcome, calls, w') \<Rightarrow> cleanup_on_success outcome calls"
    unfolding h using alwaysD[OF handleCompileChecker_always h] by simp
qed

text \<open>
  Witness for C7: the source \<open>s1\<close> compiled with success by \<^verbatim>\<open>handleCompile\<close>, and
  compiled with a failure by \<^verbatim>\<open>handleCompileChecker\<close>.
\<close>

theorem cleanupTempDir_only_after_successful_compile_witness:
  "(case handleCompile (example_sandbox True) ''n1'' compile_s1 stored_world of
      (outcome, calls, w') \<Rightarrow>
        (\<exists>reply. outcome = Inr reply \<and> reply_success reply)
        \<and> (\<exists>args cr r. success cr
              \<and> calls = [Compile args (Inr cr), CleanupTempDir (tempDir cr) r]))
   \<and> (case handleCompileChecker (example_sandbox False) ''n1'' compile_s1 stored_world of
        (outcome, calls, w') \<Rightarrow>
          (\<exists>args. Compile args (Inr (stub_compile False)) \<in> set calls)
          \<and> \<not> success (stub_compile False)
          \<and> outcome = Inr \<lparr>reply_success = False, binaryCacheId = None, checkerCacheId = None,
                            reply_compileInfo = ''error: expected ;''\<rparr>
          \<and> length calls = 1)"
proof -
  note t = cleanupTempDir_only_after_successful_compile
  obtain outcome calls w' where
    h: "handleCompile (example_sandbox True) ''n1'' compile_s1 stored_world = (outcome, calls, w')"
    by (cases "handleCompile (example_sandbox True) ''n1'' compile_s1 stored_world") auto
  have "case fst (handleCompile (example_sandbox True) ''n1'' compile_s1 stored_world) of
          Inl msg \<Rightarrow> False | Inr reply \<Rightarrow> reply_success reply"
    by code_simp
  then obtain reply where s: "outcome = Inr reply" "reply_success reply"
    unfolding h by (auto split: sum.splits)
  from t[of "example_sandbox True" "''n1''" compile_s1 stored_world] s
  have 1: "\<exists>args cr r. success cr
              \<and> calls = [Compile args (Inr cr), CleanupTempDir (tempDir cr) r]"
    unfolding h cleanup_on_success_def by (simp only: prod.case)
  obtain outcome2 calls2 w2 where
    h2: "handleCompileChecker (example_sandbox False) ''n1'' compile_s1 stored_world
           = (outcome2, calls2, w2)"
    by (cases "handleCompileChecker (example_sandbox False) ''n1'' compile_s1 stored_world") auto
  have "case fst (snd (handleCompileChecker (example_sandbox False) ''n1'' compile_s1
                         stored_world)) of
          [] \<Rightarrow> False
        | c # cs \<Rightarrow> (case c of Compile a r \<Rightarrow> r = Inr (stub_compile False) | _ \<Rightarrow> False)"
    by code_simp
  then obtain args cs where c2: "calls2 = Compile args (Inr (stub_compile False)) # cs"
    unfolding h2 by (auto split: list.splits sandbox_call.splits)
  have f: "\<not> success (stub_compile False)"
    "compileInfo (stub_compile False) = ''error: expected ;''"
    by (simp_all add: stub_compile_def)
  from t[of "example_sandbox False" "''n1''" compile_s1 stored_world] c2 f
  have 2: "outcome2 = Inr \<lparr>reply_success = False, binaryCacheId = None, checkerCacheId = None,
                            reply_compileInfo = ''error: expected ;''\<rparr>
           \<and> calls2 = [Compile args (Inr (stub_compile False))]"
    unfolding h2 cleanup_on_success_def by (simp only: prod.case) (metis list.set_intros(1))
  from s 1 2 c2 f show ?thesis unfolding h h2 by auto
qed

text \<open>
  Counterexample to C7 as stated: \<^verbatim>\<open>compile\<close> returns \<^verbatim>\<open>success: false\<close> with the
  \<^verbatim>\<open>tempDir\<close> \<^verbatim>\<open>/tmp/sandbox-7\<close>. Both handlers return the failure reply and their
  only call to the library is \<^verbatim>\<open>compile\<close>: \<^verbatim>\<open>cleanupTempDir\<close> is not called.
\<close>

theorem no_cleanupTempDir_after_failed_compile:
  "(case handleCompile (example_sandbox False) ''n1'' compile_s1 stored_world of
      (outcome, calls, w') \<Rightarrow>
        (case calls of
           [Compile args r] \<Rightarrow>
             r = Inr (stub_compile False) \<and> tempDir (stub_compile False) = ''/tmp/sandbox-7''
         | _ \<Rightarrow> False)
        \<and> no_cleanup_call calls
        \<and> outcome = Inr \<lparr>reply_success = False, binaryCacheId = None, checkerCacheId = None,
                          reply_compileInfo = ''error: expected ;''\<rparr>)
   \<and> (case handleCompileChecker (example_sandbox False) ''n1'' compile_s1 stored_world of
        (outcome, calls, w') \<Rightarrow>
          (case calls of
             [Compile args r] \<Rightarrow>
               r = Inr (stub_compile False) \<and> tempDir (stub_compile False) = ''/tmp/sandbox-7''
           | _ \<Rightarrow> False)
          \<and> no_cleanup_call calls
          \<and> outcome = Inr \<lparr>reply_success = False, binaryCacheId = None, checkerCacheId = None,
                            reply_compileInfo = ''error: expected ;''\<rparr>)"
  by code_simp

subsection \<open>Resolution of the checker name\<close>

















subsection \<open>Tasks whose handles are unavailable\<close>




















end
